theory Spec2Isabelle
  imports Main "HOL-Library.Word" "HOL-Library.List_Lexorder"
begin

section \<open>The standalone entry point of happy-server: migrate, serve, dispatcher\<close>

text \<open>
  The development embeds \<^verbatim>\<open>packages/happy-server/sources/standalone.ts\<close>: the
  module-level configuration (\<^verbatim>\<open>dataDir\<close>, \<^verbatim>\<open>pgliteDir\<close>), the function
  \<^verbatim>\<open>migrate\<close>, the function \<^verbatim>\<open>serve\<close> and the command switch at the end of the
  module.

  The source talks to three collaborators that are not part of it: the Node runtime
  (\<^verbatim>\<open>process\<close>, \<^verbatim>\<open>fs\<close>, \<^verbatim>\<open>path\<close>, \<^verbatim>\<open>crypto.randomUUID\<close>), the embedded
  database (\<^verbatim>\<open>createPGlite\<close>, \<^verbatim>\<open>pg.exec\<close>, \<^verbatim>\<open>pg.query\<close>) and the server module
  \<^verbatim>\<open>./main\<close>. Each of them is a parameter of the model; every call that can throw
  has its throwing branch. The wrapper around \<^verbatim>\<open>crypto.subtle.importKey\<close> at the top
  of the module is used by none of the three functions and is left out.
\<close>

subsection \<open>JavaScript strings\<close>

text \<open>
  A JavaScript string is a sequence of UTF-16 code units. Strict equality,
  \<^verbatim>\<open>Set.prototype.has\<close> and the default comparison of \<^verbatim>\<open>Array.prototype.sort\<close> all
  work on code units; the order of \<^verbatim>\<open>HOL-Library.List_Lexorder\<close> on lists of
  16-bit words (unsigned) is that comparison: the first differing code unit decides
  and a proper prefix comes first.
\<close>

type_synonym jsstring = "16 word list"

text \<open>An ASCII literal of the source, as code units.\<close>

definition js :: "string \<Rightarrow> jsstring" where
  "js s = map (\<lambda>c. of_nat (of_char c)) s"

text \<open>
  The value of \<^verbatim>\<open>process.env.X\<close> is \<^verbatim>\<open>undefined\<close> (\<open>None\<close>) or a string. Both
  \<^verbatim>\<open>undefined\<close> and the empty string are falsy.
\<close>

definition truthy :: "jsstring option \<Rightarrow> bool" where
  "truthy v = (case v of None \<Rightarrow> False | Some s \<Rightarrow> s \<noteq> [])"

text \<open>\<^verbatim>\<open>v || d\<close> for an optional string \<open>v\<close> and a string \<open>d\<close>.\<close>

definition or_else :: "jsstring option \<Rightarrow> jsstring \<Rightarrow> jsstring" where
  "or_else v d = (case v of None \<Rightarrow> d | Some s \<Rightarrow> if s = [] then d else s)"

subsection \<open>The Node runtime\<close>

text \<open>
  What the module reads from the runtime. A function of \<^verbatim>\<open>fs\<close> that can throw
  returns the error message on the left. \<open>statSync_isDirectory p\<close> stands for
  \<^verbatim>\<open>fs.statSync(p).isDirectory()\<close>. The file-system fields describe the migrations
  tree as \<^verbatim>\<open>migrate\<close> observes it; the tree is not changed by the run.
  \<open>randomUUID k\<close> is the result of the \<open>k\<close>-th call of \<^verbatim>\<open>crypto.randomUUID()\<close>
  in the run, counted from zero.
\<close>

record node =
  env :: "jsstring \<Rightarrow> jsstring option"
  cwd :: jsstring
  execPath :: jsstring
  path_join :: "jsstring list \<Rightarrow> jsstring"
  path_dirname :: "jsstring \<Rightarrow> jsstring"
  mkdirSync :: "jsstring \<Rightarrow> jsstring option"
  existsSync :: "jsstring \<Rightarrow> bool"
  readdirSync :: "jsstring \<Rightarrow> jsstring + jsstring list"
  statSync_isDirectory :: "jsstring \<Rightarrow> jsstring + bool"
  readFileSync :: "jsstring \<Rightarrow> jsstring + jsstring"
  randomUUID :: "nat \<Rightarrow> jsstring"

subsection \<open>The store\<close>

text \<open>
  A row of the table \<^verbatim>\<open>_prisma_migrations\<close>, with the columns of the
  \<^verbatim>\<open>CREATE TABLE\<close> statement of the source. Timestamps are natural numbers;
  \<open>None\<close> is SQL \<^verbatim>\<open>NULL\<close>.
\<close>

record row =
  row_id :: jsstring
  migration_name :: jsstring
  finished_at :: "nat option"
  started_at :: nat
  applied_steps_count :: int
  logs :: "jsstring option"

text \<open>
  The database: the tracking table (\<open>None\<close> when the table does not exist) and the rest
  of the database, of an arbitrary type \<open>'u\<close>.
\<close>

record 'u store =
  tracking :: "row list option"
  appdata :: 'u

text \<open>
  The result of \<^verbatim>\<open>pg.exec(sql)\<close> on a migration script. A script that throws may
  still have changed the store: nothing in the source rolls it back.
\<close>

datatype 'u exec_result = ExecOk "'u store" | ExecError jsstring "'u store"

text \<open>
  The engine. \<open>createPGlite dir\<close> is \<open>Some msg\<close> when the store at \<open>dir\<close> cannot be
  opened: \<^verbatim>\<open>createPGlite\<close> or the first statement on the new connection throws.
  \<open>exec_script\<close> is the meaning of a migration script: any function on the whole
  store, the tracking table included. \<open>sql_now\<close> is the value of SQL \<^verbatim>\<open>now()\<close>
  in a store state.
\<close>

record 'u pglite =
  createPGlite :: "jsstring \<Rightarrow> jsstring option"
  exec_script :: "jsstring \<Rightarrow> 'u store \<Rightarrow> 'u exec_result"
  sql_now :: "'u store \<Rightarrow> nat"

text \<open>Why a statement on the tracking table fails.\<close>

datatype cause =
    Thrown jsstring
  | UndefinedTable
  | PrimaryKeyViolation
  | UniqueViolation

text \<open>\<^verbatim>\<open>CREATE TABLE IF NOT EXISTS "_prisma_migrations" (...)\<close>\<close>

definition create_tracking_table :: "'u store \<Rightarrow> 'u store" where
  "create_tracking_table s =
     (case tracking s of None \<Rightarrow> s\<lparr>tracking := Some []\<rparr> | Some rs \<Rightarrow> s)"

text \<open>
  \<^verbatim>\<open>SELECT "migration_name" FROM "_prisma_migrations" WHERE "finished_at" IS NOT NULL\<close>
\<close>

definition select_applied :: "'u store \<Rightarrow> cause + jsstring list" where
  "select_applied s =
     (case tracking s of
        None \<Rightarrow> Inl UndefinedTable
      | Some rs \<Rightarrow> Inr (map migration_name (filter (\<lambda>r. finished_at r \<noteq> None) rs)))"

text \<open>
  \<^verbatim>\<open>INSERT INTO "_prisma_migrations" ("id", "migration_name", "finished_at",
  "applied_steps_count") VALUES ($1, $2, now(), 1)\<close>: the primary key \<^verbatim>\<open>id\<close> and the
  \<^verbatim>\<open>UNIQUE\<close> column \<^verbatim>\<open>migration_name\<close> reject a duplicate; \<^verbatim>\<open>started_at\<close> takes its
  default \<^verbatim>\<open>now()\<close> and \<^verbatim>\<open>logs\<close> is \<^verbatim>\<open>NULL\<close>.
\<close>

definition insert_record ::
  "'u pglite \<Rightarrow> jsstring \<Rightarrow> jsstring \<Rightarrow> 'u store \<Rightarrow> cause + 'u store" where
  "insert_record pg uuid dir s =
     (case tracking s of
        None \<Rightarrow> Inl UndefinedTable
      | Some rs \<Rightarrow>
          if uuid \<in> set (map row_id rs) then Inl PrimaryKeyViolation
          else if dir \<in> set (map migration_name rs) then Inl UniqueViolation
          else Inr (s\<lparr>tracking := Some (rs @
                 [\<lparr>row_id = uuid, migration_name = dir, finished_at = Some (sql_now pg s),
                   started_at = sql_now pg s, applied_steps_count = 1, logs = None\<rparr>])\<rparr>))"

subsection \<open>What a run does\<close>

text \<open>The lines written with \<^verbatim>\<open>console.log\<close> and \<^verbatim>\<open>console.error\<close>.\<close>

datatype message =
    Migrating jsstring
  | CouldNotFind
  | Applying jsstring
  | FailedToApply jsstring cause
  | NoNewMigrations
  | AppliedMigrations nat
  | Usage
  | Uncaught cause

text \<open>
  The trace of a run, in order: console output, \<open>Exec dir\<close> when the script of
  \<open>dir\<close> is passed to \<^verbatim>\<open>pg.exec\<close>, \<open>Inserted dir\<close> when the \<^verbatim>\<open>INSERT\<close> for
  \<open>dir\<close> has returned, \<open>Opened p\<close> when \<^verbatim>\<open>createPGlite(p)\<close> has returned,
  \<open>Closed\<close> for \<^verbatim>\<open>pg.close()\<close> and \<open>ImportMain\<close> for \<^verbatim>\<open>import("./main")\<close>.
\<close>

datatype event =
    Log message
  | Err message
  | Opened jsstring
  | Exec jsstring
  | Inserted jsstring
  | Closed
  | ImportMain

text \<open>
  How an \<^verbatim>\<open>async\<close> function ends: its promise resolves, the process is ended by
  \<^verbatim>\<open>process.exit(code)\<close>, or an exception rejects the promise.
\<close>

datatype outcome = Resolved | Exited nat | Rejected cause

text \<open>The variables of the loop of \<^verbatim>\<open>migrate\<close>: the store behind \<^verbatim>\<open>pg\<close> and the counter.\<close>

record 'u run =
  db :: "'u store"
  appliedCount :: nat

subsection \<open>Module-level configuration\<close>

definition dataDir :: "node \<Rightarrow> jsstring" where
  "dataDir nd = or_else (env nd (js ''DATA_DIR'')) (js ''./data'')"

definition pgliteDir :: "node \<Rightarrow> jsstring" where
  "pgliteDir nd =
     or_else (env nd (js ''PGLITE_DIR'')) (path_join nd [dataDir nd, js ''pglite''])"

subsection \<open>migrate\<close>

text \<open>The candidate locations of the migrations directory, in the order of the source.\<close>

definition candidates :: "node \<Rightarrow> jsstring list" where
  "candidates nd =
     [path_join nd [cwd nd, js ''prisma'', js ''migrations''],
      path_join nd [path_dirname nd (execPath nd), js ''prisma'', js ''migrations'']]"

text \<open>
  The loop over the candidates: the first one that exists, or the empty string the
  variable \<^verbatim>\<open>migrationsDirResolved\<close> starts with.
\<close>

fun resolve :: "node \<Rightarrow> jsstring list \<Rightarrow> jsstring" where
  "resolve nd [] = []"
| "resolve nd (candidate # rest) =
     (if existsSync nd candidate then candidate else resolve nd rest)"

text \<open>
  \<^verbatim>\<open>.filter(d => fs.statSync(path.join(migrationsDirResolved, d)).isDirectory())\<close>:
  the entries are visited in order and the first \<^verbatim>\<open>statSync\<close> that throws ends
  the filter.
\<close>

fun filter_directories :: "node \<Rightarrow> jsstring \<Rightarrow> jsstring list \<Rightarrow> jsstring + jsstring list" where
  "filter_directories nd root [] = Inr []"
| "filter_directories nd root (d # ds) =
     (case statSync_isDirectory nd (path_join nd [root, d]) of
        Inl e \<Rightarrow> Inl e
      | Inr b \<Rightarrow>
          (case filter_directories nd root ds of
             Inl e \<Rightarrow> Inl e
           | Inr ds' \<Rightarrow> Inr (if b then d # ds' else ds')))"

text \<open>\<^verbatim>\<open>fs.readdirSync(root).filter(...).sort()\<close>\<close>

definition sorted_dirs :: "node \<Rightarrow> jsstring \<Rightarrow> jsstring + jsstring list" where
  "sorted_dirs nd root =
     (case readdirSync nd root of
        Inl e \<Rightarrow> Inl e
      | Inr names \<Rightarrow>
          (case filter_directories nd root names of
             Inl e \<Rightarrow> Inl e
           | Inr ds \<Rightarrow> Inr (sort ds)))"

definition sqlFile :: "node \<Rightarrow> jsstring \<Rightarrow> jsstring \<Rightarrow> jsstring" where
  "sqlFile nd root dir = path_join nd [root, dir, js ''migration.sql'']"

text \<open>
  The loop \<^verbatim>\<open>for (const dir of dirs)\<close>, started with the loop variables \<open>r\<close>. The
  result is \<open>None\<close> when the loop runs to its end and the way the function ends
  otherwise, with the loop variables at that point and the events of the loop.
  \<^verbatim>\<open>crypto.randomUUID()\<close> is called once in every iteration that reaches the
  \<^verbatim>\<open>INSERT\<close>, and such an iteration either increments \<^verbatim>\<open>appliedCount\<close> or ends
  the process, so the number of earlier calls is \<^verbatim>\<open>appliedCount\<close>.
\<close>

fun apply_dirs ::
  "node \<Rightarrow> 'u pglite \<Rightarrow> jsstring \<Rightarrow> jsstring set \<Rightarrow> jsstring list \<Rightarrow> 'u run
     \<Rightarrow> outcome option \<times> 'u run \<times> event list" where
  "apply_dirs nd pg root appliedSet [] r = (None, r, [])"
| "apply_dirs nd pg root appliedSet (dir # dirs) r =
     (if dir \<in> appliedSet then apply_dirs nd pg root appliedSet dirs r
      else if \<not> existsSync nd (sqlFile nd root dir) then apply_dirs nd pg root appliedSet dirs r
      else
        (case readFileSync nd (sqlFile nd root dir) of
           Inl e \<Rightarrow> (Some (Rejected (Thrown e)), r, [Log (Applying dir)])
         | Inr sql \<Rightarrow>
             (case exec_script pg sql (db r) of
                ExecError e s' \<Rightarrow>
                  (Some (Exited 1), r\<lparr>db := s'\<rparr>,
                   [Log (Applying dir), Exec dir, Err (FailedToApply dir (Thrown e))])
              | ExecOk s' \<Rightarrow>
                  (case insert_record pg (randomUUID nd (appliedCount r)) dir s' of
                     Inl c \<Rightarrow>
                       (Some (Exited 1), r\<lparr>db := s'\<rparr>,
                        [Log (Applying dir), Exec dir, Err (FailedToApply dir c)])
                   | Inr s'' \<Rightarrow>
                       (case apply_dirs nd pg root appliedSet dirs
                               \<lparr>db = s'', appliedCount = appliedCount r + 1\<rparr> of
                          (out, r', t) \<Rightarrow>
                            (out, r', [Log (Applying dir), Exec dir, Inserted dir] @ t))))))"

text \<open>
  The function \<^verbatim>\<open>migrate\<close>, run on the store \<open>s\<close> that lives at \<^verbatim>\<open>pgliteDir\<close>. The
  result is the way the function ends, the store and the counter at that point, and
  the trace.
\<close>

definition migrate :: "node \<Rightarrow> 'u pglite \<Rightarrow> 'u store \<Rightarrow> outcome \<times> 'u run \<times> event list" where
  "migrate nd pg s =
     (case mkdirSync nd (pgliteDir nd) of
        Some e \<Rightarrow>
          (Rejected (Thrown e), \<lparr>db = s, appliedCount = 0\<rparr>, [Log (Migrating (pgliteDir nd))])
      | None \<Rightarrow>
      (case createPGlite pg (pgliteDir nd) of
        Some e \<Rightarrow>
          (Rejected (Thrown e), \<lparr>db = s, appliedCount = 0\<rparr>, [Log (Migrating (pgliteDir nd))])
      | None \<Rightarrow>
      (let r = \<lparr>db = create_tracking_table s, appliedCount = 0\<rparr>;
           t = [Log (Migrating (pgliteDir nd)), Opened (pgliteDir nd)];
           root = resolve nd (candidates nd) in
       if root = [] then (Exited 1, r, t @ [Err CouldNotFind])
       else
      (case sorted_dirs nd root of
        Inl e \<Rightarrow> (Rejected (Thrown e), r, t)
      | Inr dirs \<Rightarrow>
      (case select_applied (db r) of
        Inl c \<Rightarrow> (Rejected c, r, t)
      | Inr names \<Rightarrow>
      (case apply_dirs nd pg root (set names) dirs r of
        (Some out, r', t') \<Rightarrow> (out, r', t @ t')
      | (None, r', t') \<Rightarrow>
          (Resolved, r',
           t @ t' @
             [Log (if appliedCount r' = 0 then NoNewMigrations
                   else AppliedMigrations (appliedCount r')),
              Closed])))))))"

subsection \<open>serve\<close>

text \<open>
  \<^verbatim>\<open>serve\<close> assigns \<^verbatim>\<open>process.env.PGLITE_DIR\<close> when \<^verbatim>\<open>process.env.DATABASE_URL\<close>
  is falsy and then imports the server module. The result is the environment the
  server module starts in and the trace.
\<close>

definition serve :: "node \<Rightarrow> (jsstring \<Rightarrow> jsstring option) \<times> event list" where
  "serve nd =
     ((if \<not> truthy (env nd (js ''DATABASE_URL''))
       then (env nd)(js ''PGLITE_DIR'' \<mapsto> or_else (env nd (js ''PGLITE_DIR'')) (pgliteDir nd))
       else env nd),
      [ImportMain])"

subsection \<open>The command switch\<close>

text \<open>\<^verbatim>\<open>process.argv[2]\<close>: \<^verbatim>\<open>undefined\<close> when the array is shorter.\<close>

definition command :: "jsstring list \<Rightarrow> jsstring option" where
  "command argv = (if 2 < length argv then Some (argv ! 2) else None)"

datatype action = RunMigrate | RunServe | PrintUsage nat

text \<open>
  The \<^verbatim>\<open>switch\<close>: which phase runs, or the usage text and the argument of
  \<^verbatim>\<open>process.exit\<close>.
\<close>

definition dispatch :: "jsstring list \<Rightarrow> action" where
  "dispatch argv =
     (if command argv = Some (js ''migrate'') then RunMigrate
      else if command argv = Some (js ''serve'') then RunServe
      else PrintUsage
             (if command argv = Some (js ''--help'') \<or> command argv = Some (js ''-h'')
              then 0 else 1))"

text \<open>
  The exit status of the process for an outcome of \<^verbatim>\<open>migrate()\<close>: the handler
  \<^verbatim>\<open>.catch(e => { console.error(e); process.exit(1); })\<close> turns a rejection into
  status 1; a resolved promise lets the process end with status 0.
\<close>

fun exit_status :: "outcome \<Rightarrow> nat" where
  "exit_status Resolved = 0"
| "exit_status (Exited code) = code"
| "exit_status (Rejected c) = 1"

text \<open>
  The whole program on a command line. \<open>import_main e\<close> is what importing the server
  module does in the environment \<open>e\<close>: \<open>Some c\<close> when it throws.
\<close>

definition main ::
  "jsstring list \<Rightarrow> node \<Rightarrow> 'u pglite \<Rightarrow> ((jsstring \<Rightarrow> jsstring option) \<Rightarrow> cause option)
     \<Rightarrow> 'u store \<Rightarrow> nat \<times> 'u store \<times> event list" where
  "main argv nd pg import_main s =
     (case dispatch argv of
        RunMigrate \<Rightarrow>
          (case migrate nd pg s of
             (Rejected c, r, t) \<Rightarrow> (1, db r, t @ [Err (Uncaught c)])
           | (out, r, t) \<Rightarrow> (exit_status out, db r, t))
      | RunServe \<Rightarrow>
          (case serve nd of
             (e, t) \<Rightarrow>
               (case import_main e of
                  Some c \<Rightarrow> (1, s, t @ [Err (Uncaught c)])
                | None \<Rightarrow> (0, s, t)))
      | PrintUsage code \<Rightarrow> (code, s, [Log Usage]))"

section \<open>Observing a run\<close>

text \<open>The units whose script was passed to \<^verbatim>\<open>pg.exec\<close>, in order.\<close>

fun execs :: "event list \<Rightarrow> jsstring list" where
  "execs [] = []"
| "execs (Exec d # t) = d # execs t"
| "execs (e # t) = execs t"

text \<open>The units whose completion record was inserted, in order.\<close>

fun inserted :: "event list \<Rightarrow> jsstring list" where
  "inserted [] = []"
| "inserted (Inserted d # t) = d # inserted t"
| "inserted (e # t) = inserted t"

text \<open>The unit an event of the loop is about.\<close>

fun about :: "event \<Rightarrow> jsstring option" where
  "about (Log (Applying d)) = Some d"
| "about (Err (FailedToApply d c)) = Some d"
| "about (Exec d) = Some d"
| "about (Inserted d) = Some d"
| "about e = None"

text \<open>The migrations root the run uses.\<close>

definition root_of :: "node \<Rightarrow> jsstring" where
  "root_of nd = resolve nd (candidates nd)"

text \<open>
  The names the \<^verbatim>\<open>SELECT\<close> returns, as a set: the applied set of a store.
\<close>

definition applied_names :: "'u store \<Rightarrow> jsstring set" where
  "applied_names s = (case select_applied s of Inl c \<Rightarrow> {} | Inr names \<Rightarrow> set names)"

text \<open>
  A unit is pending for an applied set when it is not in the set and its script file
  exists: the two tests of the loop body.
\<close>

definition pending :: "node \<Rightarrow> jsstring \<Rightarrow> jsstring set \<Rightarrow> jsstring \<Rightarrow> bool" where
  "pending nd root appliedSet d = (d \<notin> appliedSet \<and> existsSync nd (sqlFile nd root d))"

text \<open>What the filter of the listing keeps: the entries that are directories.\<close>

definition is_dir :: "node \<Rightarrow> jsstring \<Rightarrow> jsstring \<Rightarrow> bool" where
  "is_dir nd root d = (statSync_isDirectory nd (path_join nd [root, d]) = Inr True)"



subsection \<open>Bytes of a name\<close>

text \<open>
  The bytes of a name on disk: Node encodes a JavaScript string as UTF-8, a surrogate
  pair as one code point and a lone surrogate as U+FFFD. This is the order the
  specification calls byte-wise; the source never computes it.
\<close>

definition is_high :: "16 word \<Rightarrow> bool" where
  "is_high u = (0xD800 \<le> u \<and> u \<le> 0xDBFF)"

definition is_low :: "16 word \<Rightarrow> bool" where
  "is_low u = (0xDC00 \<le> u \<and> u \<le> 0xDFFF)"

fun code_points :: "jsstring \<Rightarrow> nat list" where
  "code_points [] = []"
| "code_points [u] = [if is_high u \<or> is_low u then 0xFFFD else unat u]"
| "code_points (u # v # rest) =
     (if is_high u \<and> is_low v
      then (0x10000 + (unat u - 0xD800) * 0x400 + (unat v - 0xDC00)) # code_points rest
      else (if is_high u \<or> is_low u then 0xFFFD else unat u) # code_points (v # rest))"

definition utf8_of :: "nat \<Rightarrow> 8 word list" where
  "utf8_of cp =
     (if cp < 0x80 then [of_nat cp]
      else if cp < 0x800 then [of_nat (0xC0 + cp div 0x40), of_nat (0x80 + cp mod 0x40)]
      else if cp < 0x10000 then
        [of_nat (0xE0 + cp div 0x1000), of_nat (0x80 + cp div 0x40 mod 0x40),
         of_nat (0x80 + cp mod 0x40)]
      else
        [of_nat (0xF0 + cp div 0x40000), of_nat (0x80 + cp div 0x1000 mod 0x40),
         of_nat (0x80 + cp div 0x40 mod 0x40), of_nat (0x80 + cp mod 0x40)])"

definition utf8_bytes :: "jsstring \<Rightarrow> 8 word list" where
  "utf8_bytes s = concat (map utf8_of (code_points s))"

definition ascii :: "jsstring \<Rightarrow> bool" where
  "ascii s = (\<forall>u \<in> set s. u < 0x80)"

text \<open>The prefix of every trace that reaches the loop.\<close>

definition prologue :: "node \<Rightarrow> event list" where
  "prologue nd = [Log (Migrating (pgliteDir nd)), Opened (pgliteDir nd)]"

text \<open>The last two events of a run that resolves.\<close>

definition epilogue :: "nat \<Rightarrow> event list" where
  "epilogue n = [Log (if n = 0 then NoNewMigrations else AppliedMigrations n), Closed]"

section \<open>Sample worlds\<close>

text \<open>
  A migrations root under the working directory, listed out of order, with three
  units, a directory without script and a plain file.
\<close>

definition fx_join :: "jsstring list \<Rightarrow> jsstring" where
  "fx_join segs = concat (map (\<lambda>s. 0x2F # s) segs)"

definition fx_root :: jsstring where
  "fx_root = fx_join [js ''app'', js ''prisma'', js ''migrations'']"

definition fx_script :: "jsstring \<Rightarrow> jsstring" where
  "fx_script d = fx_join [fx_root, d, js ''migration.sql'']"

definition fx_node :: node where
  "fx_node =
     \<lparr>env = Map.empty, cwd = js ''app'', execPath = js ''bin/node'',
      path_join = fx_join, path_dirname = (\<lambda>p. js ''bin''),
      mkdirSync = (\<lambda>p. None),
      existsSync = (\<lambda>p. p \<in> set [fx_root, fx_script (js ''0001_init''),
          fx_script (js ''0002_add_index''), fx_script (js ''0010_later'')]),
      readdirSync = (\<lambda>p. if p = fx_root
          then Inr [js ''0010_later'', js ''README.md'', js ''0001_init'', js ''0003_empty'',
                    js ''0002_add_index'']
          else Inl (js ''ENOENT'')),
      statSync_isDirectory = (\<lambda>p. Inr (p \<noteq> fx_join [fx_root, js ''README.md''])),
      readFileSync = (\<lambda>p.
          if p = fx_script (js ''0001_init'') then Inr (js ''A'')
          else if p = fx_script (js ''0002_add_index'') then Inr (js ''B'')
          else if p = fx_script (js ''0010_later'') then Inr (js ''C'')
          else Inl (js ''ENOENT'')),
      randomUUID = (\<lambda>k. [of_nat k])\<rparr>"

text \<open>An engine whose scripts append their text to the data, and one where \<^verbatim>\<open>B\<close> throws.\<close>

definition fx_pg :: "jsstring list pglite" where
  "fx_pg =
     \<lparr>createPGlite = (\<lambda>p. None),
      exec_script = (\<lambda>sql s. ExecOk (s\<lparr>appdata := appdata s @ [sql]\<rparr>)),
      sql_now = (\<lambda>s. 7)\<rparr>"

definition fx_pg_fail :: "jsstring list pglite" where
  "fx_pg_fail =
     \<lparr>createPGlite = (\<lambda>p. None),
      exec_script = (\<lambda>sql s. if sql = js ''B'' then ExecError (js ''boom'') s
                               else ExecOk (s\<lparr>appdata := appdata s @ [sql]\<rparr>)),
      sql_now = (\<lambda>s. 7)\<rparr>"

definition fx_store :: "jsstring list store" where
  "fx_store = \<lparr>tracking = None, appdata = []\<rparr>"

text \<open>The store a first complete run over the sample root leaves behind.\<close>

definition fx_store_done :: "jsstring list store" where
  "fx_store_done = db (fst (snd (migrate fx_node fx_pg fx_store)))"

text \<open>Command lines.\<close>

definition fx_argv :: "string \<Rightarrow> jsstring list" where
  "fx_argv token = [js ''node'', js ''standalone.ts'', js token]"

text \<open>The sample node with \<^verbatim>\<open>DATABASE_URL\<close> set to the empty string, and to a URL.\<close>

definition fx_node_empty_url :: node where
  "fx_node_empty_url = fx_node\<lparr>env := [js ''DATABASE_URL'' \<mapsto> []]\<rparr>"

definition fx_node_url :: node where
  "fx_node_url = fx_node\<lparr>env := [js ''DATABASE_URL'' \<mapsto> js ''postgres://db'']\<rparr>"



text \<open>
  A root with two units whose names are U+FF5E and U+1F600 (a surrogate pair); every
  script exists.
\<close>

definition fx_node_astral :: node where
  "fx_node_astral =
     fx_node\<lparr>existsSync := (\<lambda>p. True),
       readdirSync := (\<lambda>p. Inr [ [0xFF5E], [0xD83D, 0xDE00] ]),
       statSync_isDirectory := (\<lambda>p. Inr True),
       readFileSync := (\<lambda>p. Inr (js ''A''))\<rparr>"

text \<open>The sample root, listed in another order.\<close>

definition fx_node_relisted :: node where
  "fx_node_relisted =
     fx_node\<lparr>readdirSync := (readdirSync fx_node)(root_of fx_node :=
        Inr [js ''0001_init'', js ''0002_add_index'', js ''0003_empty'', js ''0010_later'',
             js ''README.md''])\<rparr>"


text \<open>
  An engine whose script \<^verbatim>\<open>A\<close> writes a finished record for the unit
  \<^verbatim>\<open>0002_add_index\<close> itself.
\<close>

definition fx_pg_sneaky :: "jsstring list pglite" where
  "fx_pg_sneaky =
     \<lparr>createPGlite = (\<lambda>p. None),
      exec_script = (\<lambda>sql s.
        if sql = js ''A''
        then ExecOk (s\<lparr>tracking := map_option (\<lambda>rs. rs @
               [\<lparr>row_id = js ''x'', migration_name = js ''0002_add_index'',
                 finished_at = Some 1, started_at = 1, applied_steps_count = 1,
                 logs = None\<rparr>]) (tracking s)\<rparr>)
        else ExecOk s),
      sql_now = (\<lambda>s. 7)\<rparr>"

text \<open>A store in which an earlier attempt at \<^verbatim>\<open>0001_init\<close> left an unfinished row.\<close>

definition fx_store_unfinished :: "jsstring list store" where
  "fx_store_unfinished =
     \<lparr>tracking = Some [\<lparr>row_id = js ''r1'', migration_name = js ''0001_init'',
                         finished_at = None, started_at = 3, applied_steps_count = 0,
                         logs = None\<rparr>],
      appdata = []\<rparr>"

text \<open>A store in which \<^verbatim>\<open>0001_init\<close> is applied.\<close>

definition fx_store_one :: "jsstring list store" where
  "fx_store_one =
     \<lparr>tracking = Some [\<lparr>row_id = js ''r1'', migration_name = js ''0001_init'',
                         finished_at = Some 5, started_at = 3, applied_steps_count = 1,
                         logs = None\<rparr>],
      appdata = [js ''A'']\<rparr>"


text \<open>
  The sample node with one more entry in the root, on which \<^verbatim>\<open>statSync\<close> throws: a
  symbolic link whose target is missing.
\<close>

definition fx_node_dangling :: node where
  "fx_node_dangling =
     fx_node\<lparr>readdirSync := (\<lambda>p. if p = fx_root
          then Inr [js ''0010_later'', js ''README.md'', js ''broken'', js ''0001_init'',
                    js ''0003_empty'', js ''0002_add_index'']
          else Inl (js ''ENOENT'')),
       statSync_isDirectory := (\<lambda>p. if p = fx_join [fx_root, js ''broken'']
          then Inl (js ''ENOENT'') else statSync_isDirectory fx_node p)\<rparr>"

section \<open>Properties of the loop\<close>

lemma execs_append: "execs (t @ t') = execs t @ execs t'"
  by (induction t rule: execs.induct) auto

lemma inserted_append: "inserted (t @ t') = inserted t @ inserted t'"
  by (induction t rule: inserted.induct) auto

lemma execs_about: "d \<in> set (execs t) \<Longrightarrow> \<exists>ev \<in> set t. about ev = Some d"
  by (induction t rule: execs.induct) auto

lemma inserted_about: "d \<in> set (inserted t) \<Longrightarrow> \<exists>ev \<in> set t. about ev = Some d"
  by (induction t rule: inserted.induct) auto

text \<open>The loop only looks at the pending units.\<close>

lemma apply_dirs_filter:
  "apply_dirs nd pg root A (filter (pending nd root A) ds) r = apply_dirs nd pg root A ds r"
  by (induction ds arbitrary: r)
     (auto simp: pending_def split: sum.splits exec_result.splits prod.splits)

lemma apply_dirs_count:
  "apply_dirs nd pg root A ds r = (out, r', t) \<Longrightarrow>
     appliedCount r' = appliedCount r + length (inserted t)"
  by (induction ds arbitrary: r out r' t)
     (auto split: if_splits sum.splits exec_result.splits prod.splits)

lemma apply_dirs_not_resolved:
  "apply_dirs nd pg root A ds r = (out, r', t) \<Longrightarrow> out \<noteq> Some Resolved"
  by (induction ds arbitrary: r r' t)
     (auto split: if_splits sum.splits exec_result.splits prod.splits)

text \<open>Every event of the loop is about a pending unit of the list.\<close>

lemma apply_dirs_about:
  "apply_dirs nd pg root A ds r = (out, r', t) \<Longrightarrow> ev \<in> set t \<Longrightarrow>
     \<exists>d \<in> set ds. pending nd root A d \<and> about ev = Some d"
proof (induction ds arbitrary: r r' t)
  case Nil
  then show ?case by simp
next
  case (Cons x ds)
  show ?case
  proof (cases "pending nd root A x")
    case False
    with Cons.prems have "apply_dirs nd pg root A ds r = (out, r', t)"
      by (auto simp: pending_def split: if_splits)
    from Cons.IH [OF this Cons.prems(2)] show ?thesis by auto
  next
    case True
    then have notin: "x \<notin> A" and ex: "existsSync nd (sqlFile nd root x)"
      by (simp_all add: pending_def)
    show ?thesis
    proof (cases "about ev = Some x")
      case True
      with \<open>pending nd root A x\<close> show ?thesis by simp
    next
      case False
      with Cons.prems notin ex obtain s'' t' where
        rec: "apply_dirs nd pg root A ds \<lparr>db = s'', appliedCount = appliedCount r + 1\<rparr>
                = (out, r', t')"
        and "ev \<in> set t'"
        by (auto split: sum.splits exec_result.splits prod.splits)
      from Cons.IH [OF this] show ?thesis by auto
    qed
  qed
qed

text \<open>A loop that runs to its end has executed and recorded every pending unit.\<close>

lemma apply_dirs_completed:
  "apply_dirs nd pg root A ds r = (None, r', t) \<Longrightarrow>
     execs t = filter (pending nd root A) ds \<and> inserted t = execs t"
  by (induction ds arbitrary: r r' t)
     (auto simp: pending_def split: if_splits sum.splits exec_result.splits prod.splits)

text \<open>
  A loop that ends the process has stopped at a pending unit \<open>d\<close>: the units before it
  are executed and recorded, \<open>d\<close> is executed and not recorded, the report of the
  failure is the last event, and the cause is what the script or the \<^verbatim>\<open>INSERT\<close>
  threw.
\<close>

lemma apply_dirs_exited:
  "apply_dirs nd pg root A ds r = (Some (Exited code), r', t) \<Longrightarrow>
     code = 1 \<and>
     (\<exists>us d rest c pre sql s0.
        filter (pending nd root A) ds = us @ d # rest \<and>
        execs t = us @ [d] \<and> inserted t = us \<and>
        t = pre @ [Log (Applying d), Exec d, Err (FailedToApply d c)] \<and>
        (\<forall>ev \<in> set pre. \<exists>u \<in> set us. ev = Log (Applying u) \<or> ev = Exec u \<or> ev = Inserted u) \<and>
        readFileSync nd (sqlFile nd root d) = Inr sql \<and>
        ((\<exists>e. exec_script pg sql s0 = ExecError e (db r') \<and> c = Thrown e) \<or>
         (exec_script pg sql s0 = ExecOk (db r') \<and>
          (\<exists>k. insert_record pg (randomUUID nd k) d (db r') = Inl c))))"
proof (induction ds arbitrary: r r' t)
  case Nil
  then show ?case by simp
next
  case (Cons x ds)
  show ?case
  proof (cases "pending nd root A x")
    case False
    with Cons.prems have "apply_dirs nd pg root A ds r = (Some (Exited code), r', t)"
      by (auto simp: pending_def split: if_splits)
    from Cons.IH [OF this] False show ?thesis by simp
  next
    case True
    then have notin: "x \<notin> A" and ex: "existsSync nd (sqlFile nd root x)"
      by (simp_all add: pending_def)
    have head: "filter (pending nd root A) (x # ds) = [] @ x # filter (pending nd root A) ds"
      using True by simp
    show ?thesis
    proof (cases "readFileSync nd (sqlFile nd root x)")
      case (Inl e)
      with Cons.prems notin ex show ?thesis by simp
    next
      case (Inr sql)
      note rd = this
      show ?thesis
      proof (cases "exec_script pg sql (db r)")
        case (ExecError e s')
        with Cons.prems notin ex rd
        have "code = 1" and "db r' = s'"
          and "t = [] @ [Log (Applying x), Exec x, Err (FailedToApply x (Thrown e))]"
          by auto
        with head rd ExecError show ?thesis
          by (intro conjI exI [of _ "[]"] exI [of _ x] exI [of _ "filter (pending nd root A) ds"]
                exI [of _ "Thrown e"] exI [of _ sql] exI [of _ "db r"]) simp_all
      next
        case (ExecOk s')
        show ?thesis
        proof (cases "insert_record pg (randomUUID nd (appliedCount r)) x s'")
          case (Inl c)
          with Cons.prems notin ex rd ExecOk
          have "code = 1" and "db r' = s'"
            and "t = [] @ [Log (Applying x), Exec x, Err (FailedToApply x c)]"
            by auto
          with head rd ExecOk Inl show ?thesis
            by (intro conjI exI [of _ "[]"] exI [of _ x] exI [of _ "filter (pending nd root A) ds"]
                  exI [of _ c] exI [of _ sql] exI [of _ "db r"]) auto
        next
          case (Inr s'')
          with Cons.prems notin ex rd ExecOk
          obtain t' where
            rec: "apply_dirs nd pg root A ds \<lparr>db = s'', appliedCount = appliedCount r + 1\<rparr>
                    = (Some (Exited code), r', t')"
            and t: "t = [Log (Applying x), Exec x, Inserted x] @ t'"
            by (auto split: prod.splits)
          from Cons.IH [OF rec] obtain us d rest c pre sql' s0 where ih:
            "code = 1" "filter (pending nd root A) ds = us @ d # rest"
            "execs t' = us @ [d]" "inserted t' = us"
            "t' = pre @ [Log (Applying d), Exec d, Err (FailedToApply d c)]"
            "\<forall>ev \<in> set pre. \<exists>u \<in> set us. ev = Log (Applying u) \<or> ev = Exec u \<or> ev = Inserted u"
            "readFileSync nd (sqlFile nd root d) = Inr sql'"
            "(\<exists>e. exec_script pg sql' s0 = ExecError e (db r') \<and> c = Thrown e) \<or>
             (exec_script pg sql' s0 = ExecOk (db r') \<and>
              (\<exists>k. insert_record pg (randomUUID nd k) d (db r') = Inl c))"
            by blast
          with t True have "code = 1"
            and "filter (pending nd root A) (x # ds) = (x # us) @ d # rest"
            and "execs t = (x # us) @ [d]" and "inserted t = x # us"
            and "t = ([Log (Applying x), Exec x, Inserted x] @ pre) @
                   [Log (Applying d), Exec d, Err (FailedToApply d c)]"
            and "\<forall>ev \<in> set ([Log (Applying x), Exec x, Inserted x] @ pre).
                   \<exists>u \<in> set (x # us). ev = Log (Applying u) \<or> ev = Exec u \<or> ev = Inserted u"
            by auto
          with ih(7,8) show ?thesis
            by (intro conjI exI [of _ "x # us"] exI [of _ d] exI [of _ rest]
                  exI [of _ c] exI [of _ "[Log (Applying x), Exec x, Inserted x] @ pre"]
                  exI [of _ sql'] exI [of _ s0]) simp_all
        qed
      qed
    qed
  qed
qed

text \<open>
  A loop that ends with an exception has stopped at a pending unit whose script
  could not be read.
\<close>

lemma apply_dirs_rejected:
  "apply_dirs nd pg root A ds r = (Some (Rejected c), r', t) \<Longrightarrow>
     \<exists>us d rest e pre.
        filter (pending nd root A) ds = us @ d # rest \<and>
        execs t = us \<and> inserted t = us \<and>
        readFileSync nd (sqlFile nd root d) = Inl e \<and> c = Thrown e \<and>
        t = pre @ [Log (Applying d)]"
proof (induction ds arbitrary: r r' t)
  case Nil
  then show ?case by simp
next
  case (Cons x ds)
  show ?case
  proof (cases "pending nd root A x")
    case False
    with Cons.prems have "apply_dirs nd pg root A ds r = (Some (Rejected c), r', t)"
      by (auto simp: pending_def split: if_splits)
    from Cons.IH [OF this] False show ?thesis by simp
  next
    case True
    then have notin: "x \<notin> A" and ex: "existsSync nd (sqlFile nd root x)"
      by (simp_all add: pending_def)
    have head: "filter (pending nd root A) (x # ds) = [] @ x # filter (pending nd root A) ds"
      using True by simp
    show ?thesis
    proof (cases "readFileSync nd (sqlFile nd root x)")
      case (Inl e)
      with Cons.prems notin ex
      have "c = Thrown e" and "t = [] @ [Log (Applying x)]"
        by simp_all
      with head Inl show ?thesis by fastforce
    next
      case (Inr sql)
      note rd = this
      show ?thesis
      proof (cases "exec_script pg sql (db r)")
        case (ExecError e s')
        with Cons.prems notin ex rd show ?thesis by simp
      next
        case (ExecOk s')
        show ?thesis
        proof (cases "insert_record pg (randomUUID nd (appliedCount r)) x s'")
          case (Inl c')
          with Cons.prems notin ex rd ExecOk show ?thesis by simp
        next
          case (Inr s'')
          with Cons.prems notin ex rd ExecOk
          obtain t' where
            rec: "apply_dirs nd pg root A ds \<lparr>db = s'', appliedCount = appliedCount r + 1\<rparr>
                    = (Some (Rejected c), r', t')"
            and t: "t = [Log (Applying x), Exec x, Inserted x] @ t'"
            by (auto split: prod.splits)
          from Cons.IH [OF rec] obtain us d rest e pre where
            "filter (pending nd root A) ds = us @ d # rest"
            "execs t' = us" "inserted t' = us"
            "readFileSync nd (sqlFile nd root d) = Inl e" "c = Thrown e"
            "t' = pre @ [Log (Applying d)]"
            by blast
          with t True have
            "filter (pending nd root A) (x # ds) = (x # us) @ d # rest"
            and "execs t = x # us" and "inserted t = x # us"
            and "readFileSync nd (sqlFile nd root d) = Inl e" "c = Thrown e"
            and "t = ([Log (Applying x), Exec x, Inserted x] @ pre) @ [Log (Applying d)]"
            by simp_all
          then show ?thesis by blast
        qed
      qed
    qed
  qed
qed

text \<open>Whatever the outcome, the executed units are a prefix of the pending units.\<close>

lemma apply_dirs_prefix:
  assumes "apply_dirs nd pg root A ds r = (out, r', t)"
  shows "\<exists>rest. filter (pending nd root A) ds = execs t @ rest"
proof (cases out)
  case None
  with assms apply_dirs_completed show ?thesis by fastforce
next
  case (Some oc)
  show ?thesis
  proof (cases oc)
    case Resolved
    with assms Some apply_dirs_not_resolved show ?thesis by blast
  next
    case (Exited code)
    with assms Some apply_dirs_exited [of nd pg root A ds r code r' t] show ?thesis by auto
  next
    case (Rejected c)
    with assms Some apply_dirs_rejected [of nd pg root A ds r c r' t] show ?thesis by auto
  qed
qed

section \<open>Properties of migrate\<close>

lemma select_created:
  "\<exists>names. select_applied (create_tracking_table s) = Inr names \<and>
     set names = applied_names (create_tracking_table s)"
  by (simp add: applied_names_def select_applied_def create_tracking_table_def
           split: option.splits)

text \<open>A run that gets as far as the loop is the loop, framed by fixed events.\<close>

lemma migrate_reached:
  assumes "mkdirSync nd (pgliteDir nd) = None" and "createPGlite pg (pgliteDir nd) = None"
    and "root_of nd \<noteq> []" and "sorted_dirs nd (root_of nd) = Inr dirs"
  shows "migrate nd pg s =
     (case apply_dirs nd pg (root_of nd) (applied_names (create_tracking_table s)) dirs
             \<lparr>db = create_tracking_table s, appliedCount = 0\<rparr> of
        (Some out, r', t') \<Rightarrow> (out, r', prologue nd @ t')
      | (None, r', t') \<Rightarrow> (Resolved, r', prologue nd @ t' @ epilogue (appliedCount r')))"
proof -
  from select_created obtain names where
    "select_applied (create_tracking_table s) = Inr names"
    "set names = applied_names (create_tracking_table s)"
    by blast
  with assms show ?thesis
    by (simp add: migrate_def Let_def root_of_def prologue_def epilogue_def
             split: prod.splits option.splits)
qed

text \<open>A run that does not get as far as the loop does nothing to any unit.\<close>

lemma migrate_not_reached:
  assumes "migrate nd pg s = (out, r, t)"
    and "mkdirSync nd (pgliteDir nd) \<noteq> None \<or> createPGlite pg (pgliteDir nd) \<noteq> None \<or>
         root_of nd = [] \<or> (\<exists>e. sorted_dirs nd (root_of nd) = Inl e)"
  shows "out \<noteq> Resolved \<and> exit_status out = 1 \<and> appliedCount r = 0 \<and>
         (\<forall>ev \<in> set t. about ev = None) \<and> execs t = [] \<and> inserted t = []"
  using assms
  by (auto simp: migrate_def Let_def root_of_def split: option.splits if_splits sum.splits)

lemma main_migrate:
  assumes "dispatch argv = RunMigrate" and "migrate nd pg s = (out, r, t)"
  shows "fst (main argv nd pg im s) = exit_status out"
  using assms by (cases out) (simp_all add: main_def)

subsection \<open>Bytes of ASCII names\<close>

lemma ascii_unat: "(u :: 16 word) < 0x80 \<Longrightarrow> unat u < 128"
  by (simp add: word_less_nat_alt)

lemma ascii_not_surrogate: "(u :: 16 word) < 0x80 \<Longrightarrow> \<not> is_high u \<and> \<not> is_low u"
  by (auto simp: is_high_def is_low_def word_less_nat_alt word_le_nat_alt)

lemma code_points_ascii: "ascii s \<Longrightarrow> code_points s = map unat s"
  by (induction s rule: code_points.induct) (auto simp: ascii_def ascii_not_surrogate)

lemma unat_byte_ascii: "(u :: 16 word) < 0x80 \<Longrightarrow> unat (ucast u :: 8 word) = unat u"
proof -
  assume "u < 0x80"
  then have "unat u < 2 ^ 8"
    by (simp add: word_less_nat_alt)
  then show ?thesis
    by (simp add: unsigned_ucast_eq take_bit_nat_eq_self)
qed

lemma utf8_of_ascii: "(u :: 16 word) < 0x80 \<Longrightarrow> utf8_of (unat u) = [ucast u]"
  by (simp add: utf8_of_def word_less_nat_alt)

lemma utf8_bytes_ascii: "ascii s \<Longrightarrow> utf8_bytes s = map ucast s"
proof -
  assume a: "ascii s"
  then have "map utf8_of (map unat s) = map (\<lambda>u. [ucast u]) s"
    by (simp add: ascii_def utf8_of_ascii)
  with a show ?thesis
    by (simp add: utf8_bytes_def code_points_ascii del: map_map)
qed

lemma byte_less_ascii:
  "(u :: 16 word) < 0x80 \<Longrightarrow> (v :: 16 word) < 0x80 \<Longrightarrow>
     ((ucast u :: 8 word) < ucast v) = (u < v)"
  by (simp add: word_less_nat_alt [of "ucast u"] word_less_nat_alt [of u v] unat_byte_ascii)

lemma byte_eq_ascii:
  "(u :: 16 word) < 0x80 \<Longrightarrow> (v :: 16 word) < 0x80 \<Longrightarrow>
     ((ucast u :: 8 word) = ucast v) = (u = v)"
  by (metis byte_less_ascii linorder_neq_iff)

lemma bytes_less_ascii:
  "ascii xs \<Longrightarrow> ascii ys \<Longrightarrow>
     (map (ucast :: 16 word \<Rightarrow> 8 word) xs < map ucast ys) = (xs < ys)"
proof (induction xs arbitrary: ys)
  case Nil
  then show ?case by (cases ys) simp_all
next
  case (Cons x xs)
  show ?case
  proof (cases ys)
    case Nil
    then show ?thesis by simp
  next
    case (Cons y ys')
    with Cons.prems have "x < 0x80" "y < 0x80" "ascii xs" "ascii ys'"
      by (simp_all add: ascii_def)
    with Cons.IH [of ys'] Cons show ?thesis
      by (simp add: byte_less_ascii byte_eq_ascii)
  qed
qed

lemma utf8_less_ascii: "ascii xs \<Longrightarrow> ascii ys \<Longrightarrow> (utf8_bytes xs < utf8_bytes ys) = (xs < ys)"
  by (simp add: utf8_bytes_ascii bytes_less_ascii)

section \<open>Properties of the listing and of whole runs\<close>

lemma filter_directories_Inr:
  "filter_directories nd root names = Inr ds \<Longrightarrow>
     ds = filter (is_dir nd root) names \<and>
     (\<forall>d \<in> set names. \<exists>b. statSync_isDirectory nd (path_join nd [root, d]) = Inr b)"
  by (induction names arbitrary: ds) (auto simp: is_dir_def split: sum.splits)

lemma filter_directories_ok:
  "\<forall>d \<in> set names. \<exists>b. statSync_isDirectory nd (path_join nd [root, d]) = Inr b \<Longrightarrow>
     filter_directories nd root names = Inr (filter (is_dir nd root) names)"
  by (induction names) (auto simp: is_dir_def split: sum.splits)

lemma sorted_dirs_Inr:
  assumes "sorted_dirs nd root = Inr ds" and "readdirSync nd root = Inr names"
  shows "ds = sort (filter (is_dir nd root) names)"
    and "\<forall>d \<in> set names. \<exists>b. statSync_isDirectory nd (path_join nd [root, d]) = Inr b"
  using assms filter_directories_Inr [of nd root names]
  by (auto simp: sorted_dirs_def split: sum.splits)

lemma sort_filter_permutation:
  assumes "set xs = set ys" and "distinct xs" and "distinct ys"
  shows "sort (filter P xs) = sort (filter P ys)"
proof (rule sorted_distinct_set_unique)
  show "set (sort (filter P xs)) = set (sort (filter P ys))"
    using assms by simp
qed (use assms in simp_all)

lemma strict_sorted_prefix:
  assumes "distinct names" and "filter Q (sort (filter P names)) = es @ rest"
  shows "sorted_wrt (<) es"
proof -
  have "sorted_wrt (<) (sort (filter P names))"
    using assms(1) by (simp add: strict_sorted_iff)
  then have "sorted_wrt (<) (filter Q (sort (filter P names)))"
    by (rule sorted_wrt_filter)
  with assms(2) show ?thesis
    by (simp add: sorted_wrt_append)
qed

lemma execs_fixed [simp]:
  "execs (prologue nd) = []" "execs (epilogue n) = []"
  "inserted (prologue nd) = []" "inserted (epilogue n) = []"
  by (simp_all add: prologue_def epilogue_def)

lemma migrate_cases:
  assumes "migrate nd pg s = (out, r, t)"
  obtains (stopped) "out \<noteq> Resolved" "exit_status out = 1" "appliedCount r = 0"
      "\<forall>ev \<in> set t. about ev = None" "execs t = []" "inserted t = []"
      "db r = s \<or> db r = create_tracking_table s"
      "\<forall>dirs. sorted_dirs nd (root_of nd) = Inr dirs \<longrightarrow>
         mkdirSync nd (pgliteDir nd) \<noteq> None \<or> createPGlite pg (pgliteDir nd) \<noteq> None \<or>
         root_of nd = []"
    | (looped) dirs lo t' where "sorted_dirs nd (root_of nd) = Inr dirs"
      "mkdirSync nd (pgliteDir nd) = None" "createPGlite pg (pgliteDir nd) = None"
      "root_of nd \<noteq> []"
      "apply_dirs nd pg (root_of nd) (applied_names (create_tracking_table s)) dirs
         \<lparr>db = create_tracking_table s, appliedCount = 0\<rparr> = (lo, r, t')"
      "lo = None \<longrightarrow> out = Resolved \<and> t = prologue nd @ t' @ epilogue (appliedCount r)"
      "\<forall>oc. lo = Some oc \<longrightarrow> out = oc \<and> out \<noteq> Resolved \<and> t = prologue nd @ t'"
proof (cases "mkdirSync nd (pgliteDir nd) = None \<and> createPGlite pg (pgliteDir nd) = None \<and>
      root_of nd \<noteq> [] \<and> (\<exists>dirs. sorted_dirs nd (root_of nd) = Inr dirs)")
  case False
  then have n: "mkdirSync nd (pgliteDir nd) \<noteq> None \<or> createPGlite pg (pgliteDir nd) \<noteq> None \<or>
         root_of nd = [] \<or> (\<exists>e. sorted_dirs nd (root_of nd) = Inl e)"
    by (cases "sorted_dirs nd (root_of nd)") auto
  have "db r = s \<or> db r = create_tracking_table s"
    using assms n
    by (auto simp: migrate_def Let_def root_of_def
             split: option.splits if_splits sum.splits prod.splits)
  with migrate_not_reached [OF assms n] False show ?thesis
    by (intro stopped) auto
next
  case True
  then obtain dirs where d: "sorted_dirs nd (root_of nd) = Inr dirs"
    by blast
  obtain lo r' t' where loop:
    "apply_dirs nd pg (root_of nd) (applied_names (create_tracking_table s)) dirs
       \<lparr>db = create_tracking_table s, appliedCount = 0\<rparr> = (lo, r', t')"
    by (metis prod_cases3)
  from True d migrate_reached [of nd pg dirs s] loop assms
  have m: "(out, r, t) =
     (case lo of Some oc \<Rightarrow> (oc, r', prologue nd @ t')
      | None \<Rightarrow> (Resolved, r', prologue nd @ t' @ epilogue (appliedCount r')))"
    by (simp split: option.splits)
  then have "r' = r"
    by (cases lo) simp_all
  moreover have "lo \<noteq> Some Resolved"
    using loop apply_dirs_not_resolved by blast
  ultimately show ?thesis
    using True d loop m by (intro looped [of dirs lo t']) (auto split: option.splits)
qed

lemma resolve_cong:
  "\<forall>c \<in> set cs. existsSync nd' c = existsSync nd c \<Longrightarrow> resolve nd' cs = resolve nd cs"
  by (induction cs) simp_all

lemma filter_directories_cong:
  "path_join nd' = path_join nd \<Longrightarrow> statSync_isDirectory nd' = statSync_isDirectory nd \<Longrightarrow>
     filter_directories nd' root names = filter_directories nd root names"
  by (induction names) (simp_all split: sum.splits)

lemma apply_dirs_cong:
  assumes "path_join nd' = path_join nd" and "randomUUID nd' = randomUUID nd"
    and "\<forall>d \<in> set ds. d \<notin> A \<longrightarrow>
           existsSync nd' (sqlFile nd root d) = existsSync nd (sqlFile nd root d) \<and>
           readFileSync nd' (sqlFile nd root d) = readFileSync nd (sqlFile nd root d)"
  shows "apply_dirs nd' pg root A ds r = apply_dirs nd pg root A ds r"
proof -
  have f: "sqlFile nd' root d = sqlFile nd root d" for d
    using assms(1) by (simp add: sqlFile_def)
  from assms(3) show ?thesis
  proof (induction ds arbitrary: r)
    case Nil
    show ?case by simp
  next
    case (Cons x ds)
    then have ih: "apply_dirs nd' pg root A ds r' = apply_dirs nd pg root A ds r'" for r'
      by simp
    show ?case
    proof (cases "x \<in> A")
      case True
      with ih show ?thesis by simp
    next
      case False
      with Cons.prems have
        "existsSync nd' (sqlFile nd root x) = existsSync nd (sqlFile nd root x)"
        "readFileSync nd' (sqlFile nd root x) = readFileSync nd (sqlFile nd root x)"
        by simp_all
      with False ih f assms(2) show ?thesis
        by (simp split: sum.splits exec_result.splits)
    qed
  qed
qed

text \<open>
  Two nodes that differ only in what the run does not look at give the same run.
\<close>

lemma migrate_cong:
  assumes same: "env nd' = env nd" "cwd nd' = cwd nd" "execPath nd' = execPath nd"
      "path_join nd' = path_join nd" "path_dirname nd' = path_dirname nd"
      "mkdirSync nd' = mkdirSync nd" "randomUUID nd' = randomUUID nd"
    and cands: "\<forall>c \<in> set (candidates nd). existsSync nd' c = existsSync nd c"
    and dirs: "map_sum id (filter (pending nd (root_of nd) (applied_names (create_tracking_table s))))
                 (sorted_dirs nd' (root_of nd))
             = map_sum id (filter (pending nd (root_of nd) (applied_names (create_tracking_table s))))
                 (sorted_dirs nd (root_of nd))"
    and scripts: "\<forall>d. d \<notin> applied_names (create_tracking_table s) \<longrightarrow>
           existsSync nd' (sqlFile nd (root_of nd) d) = existsSync nd (sqlFile nd (root_of nd) d) \<and>
           readFileSync nd' (sqlFile nd (root_of nd) d) = readFileSync nd (sqlFile nd (root_of nd) d)"
  shows "migrate nd' pg s = migrate nd pg s"
proof -
  let ?A = "applied_names (create_tracking_table s)"
  let ?r0 = "\<lparr>db = create_tracking_table s, appliedCount = 0\<rparr>"
  have pd: "pgliteDir nd' = pgliteDir nd"
    using same by (simp add: pgliteDir_def dataDir_def)
  have cs: "candidates nd' = candidates nd"
    using same by (simp add: candidates_def)
  have root: "root_of nd' = root_of nd"
    using cands by (simp add: root_of_def cs resolve_cong)
  have pro: "prologue nd' = prologue nd"
    using pd by (simp add: prologue_def)
  have pend: "pending nd' (root_of nd) ?A = pending nd (root_of nd) ?A"
    using scripts same by (auto simp: pending_def sqlFile_def fun_eq_iff)
  have loop: "apply_dirs nd' pg (root_of nd) ?A ds r = apply_dirs nd pg (root_of nd) ?A ds r" for ds r
    using same scripts by (intro apply_dirs_cong) simp_all
  show ?thesis
  proof (cases "mkdirSync nd (pgliteDir nd) = None \<and> createPGlite pg (pgliteDir nd) = None \<and>
      root_of nd \<noteq> []")
    case False
    with same pd root show ?thesis
      by (auto simp: migrate_def Let_def root_of_def split: option.splits)
  next
    case True
    show ?thesis
    proof (cases "sorted_dirs nd (root_of nd)")
      case (Inl e)
      with dirs have "sorted_dirs nd' (root_of nd) = Inl e"
        by (cases "sorted_dirs nd' (root_of nd)") simp_all
      with Inl True same pd root show ?thesis
        by (auto simp: migrate_def Let_def root_of_def split: option.splits)
    next
      case (Inr ds)
      with dirs obtain ds' where ds': "sorted_dirs nd' (root_of nd) = Inr ds'"
        and eq: "filter (pending nd (root_of nd) ?A) ds' = filter (pending nd (root_of nd) ?A) ds"
        by (cases "sorted_dirs nd' (root_of nd)") simp_all
      have "apply_dirs nd' pg (root_of nd) ?A ds' ?r0
          = apply_dirs nd' pg (root_of nd) ?A (filter (pending nd' (root_of nd) ?A) ds') ?r0"
        by (simp add: apply_dirs_filter)
      also have "\<dots> = apply_dirs nd pg (root_of nd) ?A (filter (pending nd (root_of nd) ?A) ds) ?r0"
        by (simp add: pend eq loop)
      also have "\<dots> = apply_dirs nd pg (root_of nd) ?A ds ?r0"
        by (simp add: apply_dirs_filter)
      finally have l: "apply_dirs nd' pg (root_of nd') ?A ds' ?r0
          = apply_dirs nd pg (root_of nd) ?A ds ?r0"
        by (simp add: root)
      from True same pd root have t': "mkdirSync nd' (pgliteDir nd') = None"
        "createPGlite pg (pgliteDir nd') = None" "root_of nd' \<noteq> []"
        by simp_all
      from ds' root have d': "sorted_dirs nd' (root_of nd') = Inr ds'"
        by simp
      from True have t: "mkdirSync nd (pgliteDir nd) = None"
        "createPGlite pg (pgliteDir nd) = None" "root_of nd \<noteq> []"
        by simp_all
      show ?thesis
        by (simp only: migrate_reached [OF t' d'] migrate_reached [OF t Inr] l pro)
    qed
  qed
qed

lemma migrate_listing_order:
  assumes ls: "readdirSync nd (root_of nd) = Inr names"
    and sd: "sorted_dirs nd (root_of nd) = Inr dirs"
    and perm: "set names' = set names" "distinct names'" "distinct names"
  shows "migrate (nd\<lparr>readdirSync := (readdirSync nd)(root_of nd := Inr names')\<rparr>) pg s
           = migrate nd pg s"
proof (rule migrate_cong)
  let ?nd' = "nd\<lparr>readdirSync := (readdirSync nd)(root_of nd := Inr names')\<rparr>"
  from sorted_dirs_Inr [OF sd ls]
  have d: "dirs = sort (filter (is_dir nd (root_of nd)) names)"
    and ok: "\<forall>d \<in> set names. \<exists>b. statSync_isDirectory nd (path_join nd [root_of nd, d]) = Inr b"
    by simp_all
  from ok perm(1)
  have "filter_directories nd (root_of nd) names' = Inr (filter (is_dir nd (root_of nd)) names')"
    by (intro filter_directories_ok) simp
  moreover have "filter_directories ?nd' (root_of nd) names' = filter_directories nd (root_of nd) names'"
    by (rule filter_directories_cong) simp_all
  ultimately have "sorted_dirs ?nd' (root_of nd) = Inr (sort (filter (is_dir nd (root_of nd)) names'))"
    by (simp add: sorted_dirs_def)
  with d sd sort_filter_permutation [OF perm(1) perm(2) perm(3)]
  have "sorted_dirs ?nd' (root_of nd) = sorted_dirs nd (root_of nd)"
    by simp
  then show "map_sum id (filter (pending nd (root_of nd) (applied_names (create_tracking_table s))))
                 (sorted_dirs ?nd' (root_of nd))
             = map_sum id (filter (pending nd (root_of nd) (applied_names (create_tracking_table s))))
                 (sorted_dirs nd (root_of nd))"
    by simp
qed simp_all


text \<open>The first pending unit is always attempted, and executed when its script can be read.\<close>

lemma apply_dirs_first:
  assumes "apply_dirs nd pg root A ds r = (out, r', t)"
    and "filter (pending nd root A) ds = d # rest"
  shows "Log (Applying d) \<in> set t \<and>
         (\<forall>sql. readFileSync nd (sqlFile nd root d) = Inr sql \<longrightarrow> d \<in> set (execs t))"
proof -
  from assms(2) have "pending nd root A d"
    by (metis filter_eq_ConsD)
  then have p: "d \<notin> A" "existsSync nd (sqlFile nd root d)"
    by (simp_all add: pending_def)
  from assms have "apply_dirs nd pg root A (d # rest) r = (out, r', t)"
    using apply_dirs_filter [of nd pg root A ds r] by simp
  with p show ?thesis
    by (auto split: sum.splits exec_result.splits prod.splits)
qed

subsection \<open>The tracking table during the loop\<close>





lemma created_table [simp]: "tracking (create_tracking_table s) \<noteq> None"
  by (simp add: create_tracking_table_def split: option.splits)


lemma about_fixed [simp]:
  "ev \<in> set (prologue nd) \<Longrightarrow> about ev = None"
  "ev \<in> set (epilogue n) \<Longrightarrow> about ev = None"
  by (auto simp: prologue_def epilogue_def)




lemma applied_names_rows:
  "d \<in> applied_names (create_tracking_table s) \<longleftrightarrow>
     (\<exists>x \<in> set (case tracking s of None \<Rightarrow> [] | Some rs \<Rightarrow> rs).
         migration_name x = d \<and> finished_at x \<noteq> None)"
  by (auto simp: applied_names_def select_applied_def create_tracking_table_def
           split: option.splits)


text \<open>An entry that can be inspected is filtered on its own.\<close>

lemma filter_directories_removeAll:
  assumes "statSync_isDirectory nd (path_join nd [root, e]) = Inr b"
  shows "filter_directories nd root (removeAll e names)
           = map_sum id (removeAll e) (filter_directories nd root names)"
  using assms by (induction names) (auto split: sum.splits)

lemma pending_sort_removeAll:
  assumes "e \<notin> set ds \<or> \<not> P e"
  shows "filter P (sort (removeAll e ds)) = filter P (sort ds)"
proof -
  have "filter P (removeAll e ds) = filter P ds"
    using assms by (induction ds) auto
  then show ?thesis
    by (simp add: filter_sort)
qed



subsection \<open>Facts about the sample worlds\<close>


lemma fx_listing:
  "readdirSync fx_node (root_of fx_node) =
     Inr [js ''0010_later'', js ''README.md'', js ''0001_init'', js ''0003_empty'',
          js ''0002_add_index'']"
  "distinct [js ''0010_later'', js ''README.md'', js ''0001_init'', js ''0003_empty'',
             js ''0002_add_index'']"
  "sorted_dirs fx_node (root_of fx_node) =
     Inr [js ''0001_init'', js ''0002_add_index'', js ''0003_empty'', js ''0010_later'']"
  "root_of fx_node = fx_root"
  "mkdirSync fx_node (pgliteDir fx_node) = None"
  "createPGlite fx_pg (pgliteDir fx_node) = None"
  "root_of fx_node \<noteq> []"
  by code_simp+



section \<open>The claims\<close>

text \<open>
  C6. For every run that completes without failure, the reported applied count equals
  exactly the number of units whose script executed and whose completion record was
  inserted during that run; zero applied units (empty root or all units already
  applied) is a success, not an error.

  First part: a run that resolves has a count equal to the number of inserted records,
  the inserted units are the executed units, the count is what the last console line
  reports, and the exit status is 0. Second part: a run that finds no pending unit in
  the root resolves with count 0 and the line "No new migrations to apply.".
\<close>

theorem applied_count_exact:
  "(migrate nd pg s = (Resolved, r, t) \<longrightarrow>
      appliedCount r = length (inserted t) \<and> inserted t = execs t \<and>
      (\<exists>t'. t = prologue nd @ t' @ epilogue (appliedCount r)) \<and>
      (dispatch argv = RunMigrate \<longrightarrow> fst (main argv nd pg im s) = 0)) \<and>
   (mkdirSync nd (pgliteDir nd) = None \<and> createPGlite pg (pgliteDir nd) = None \<and>
    root_of nd \<noteq> [] \<and> sorted_dirs nd (root_of nd) = Inr dirs \<and>
    (\<forall>d \<in> set dirs. \<not> pending nd (root_of nd) (applied_names (create_tracking_table s)) d) \<longrightarrow>
      migrate nd pg s =
        (Resolved, \<lparr>db = create_tracking_table s, appliedCount = 0\<rparr>,
         prologue nd @ epilogue 0))"
proof (intro conjI impI)
  assume run: "migrate nd pg s = (Resolved, r, t)"
  then have reach:
    "\<not> (mkdirSync nd (pgliteDir nd) \<noteq> None \<or> createPGlite pg (pgliteDir nd) \<noteq> None \<or>
        root_of nd = [] \<or> (\<exists>e. sorted_dirs nd (root_of nd) = Inl e))"
    using migrate_not_reached [of nd pg s Resolved r t] by blast
  then obtain ds where ds: "sorted_dirs nd (root_of nd) = Inr ds"
    by (cases "sorted_dirs nd (root_of nd)") auto
  obtain lo r' t' where loop:
    "apply_dirs nd pg (root_of nd) (applied_names (create_tracking_table s)) ds
       \<lparr>db = create_tracking_table s, appliedCount = 0\<rparr> = (lo, r', t')"
    by (metis prod_cases3)
  from reach ds have m: "migrate nd pg s =
     (case (lo, r', t') of
        (Some out, r', t') \<Rightarrow> (out, r', prologue nd @ t')
      | (None, r', t') \<Rightarrow> (Resolved, r', prologue nd @ t' @ epilogue (appliedCount r')))"
    using migrate_reached [of nd pg ds s] loop by simp
  have lo: "lo = None"
  proof (cases lo)
    case (Some oc)
    with m run have "oc = Resolved" by simp
    with Some loop apply_dirs_not_resolved show ?thesis by blast
  qed simp
  with m run have r: "r = r'" and t: "t = prologue nd @ t' @ epilogue (appliedCount r)"
    by simp_all
  from loop lo have c: "appliedCount r' = length (inserted t')"
    and e: "inserted t' = execs t'"
    using apply_dirs_count [of nd pg "root_of nd" _ ds _ None r' t']
      apply_dirs_completed [of nd pg "root_of nd" _ ds _ r' t']
    by simp_all
  have fr: "inserted (prologue nd) = []" "execs (prologue nd) = []"
    "inserted (epilogue n) = []" "execs (epilogue n) = []" for n
    by (simp_all add: prologue_def epilogue_def)
  show "appliedCount r = length (inserted t)"
    using r c by (subst t) (simp add: inserted_append fr)
  show "inserted t = execs t"
    using e by (subst (1 2) t) (simp add: inserted_append execs_append fr)
  show "\<exists>t'. t = prologue nd @ t' @ epilogue (appliedCount r)"
    using t by blast
  show "fst (main argv nd pg im s) = 0" if "dispatch argv = RunMigrate"
    using main_migrate [OF that run] by simp
next
  assume h: "mkdirSync nd (pgliteDir nd) = None \<and> createPGlite pg (pgliteDir nd) = None \<and>
    root_of nd \<noteq> [] \<and> sorted_dirs nd (root_of nd) = Inr dirs \<and>
    (\<forall>d \<in> set dirs. \<not> pending nd (root_of nd) (applied_names (create_tracking_table s)) d)"
  then have "filter (pending nd (root_of nd) (applied_names (create_tracking_table s))) dirs = []"
    by (simp add: filter_empty_conv)
  then have "apply_dirs nd pg (root_of nd) (applied_names (create_tracking_table s)) dirs
       \<lparr>db = create_tracking_table s, appliedCount = 0\<rparr>
     = (None, \<lparr>db = create_tracking_table s, appliedCount = 0\<rparr>, [])"
    using apply_dirs_filter [of nd pg "root_of nd" "applied_names (create_tracking_table s)" dirs]
    by (metis apply_dirs.simps(1))
  with h show "migrate nd pg s =
        (Resolved, \<lparr>db = create_tracking_table s, appliedCount = 0\<rparr>,
         prologue nd @ epilogue 0)"
    using migrate_reached [of nd pg dirs s] by simp
qed

theorem applied_count_exact_witness:
  "fst (migrate fx_node fx_pg fx_store) = Resolved \<and>
   appliedCount (fst (snd (migrate fx_node fx_pg fx_store))) = 3 \<and>
   length (execs (snd (snd (migrate fx_node fx_pg fx_store)))) = 3 \<and>
   fst (main (fx_argv ''migrate'') fx_node fx_pg (\<lambda>e. None) fx_store) = 0 \<and>
   migrate fx_node fx_pg fx_store_done =
     (Resolved, \<lparr>db = fx_store_done, appliedCount = 0\<rparr>, prologue fx_node @ epilogue 0)"
proof -
  have a: "fst (migrate fx_node fx_pg fx_store) = Resolved"
    by code_simp
  then obtain r t where run: "migrate fx_node fx_pg fx_store = (Resolved, r, t)"
    by (cases "migrate fx_node fx_pg fx_store") auto
  have d: "dispatch (fx_argv ''migrate'') = RunMigrate"
    by code_simp
  have n: "length (execs (snd (snd (migrate fx_node fx_pg fx_store)))) = 3"
    by code_simp
  have h: "mkdirSync fx_node (pgliteDir fx_node) = None"
    "createPGlite fx_pg (pgliteDir fx_node) = None"
    "root_of fx_node \<noteq> []"
    "sorted_dirs fx_node (root_of fx_node) =
       Inr [js ''0001_init'', js ''0002_add_index'', js ''0003_empty'', js ''0010_later'']"
    "\<forall>d \<in> set [js ''0001_init'', js ''0002_add_index'', js ''0003_empty'', js ''0010_later''].
       \<not> pending fx_node (root_of fx_node) (applied_names (create_tracking_table fx_store_done)) d"
    "create_tracking_table fx_store_done = fx_store_done"
    by code_simp+
  from applied_count_exact
    [of fx_node fx_pg fx_store r t "fx_argv ''migrate''" "\<lambda>e. None"] run d n
  have "appliedCount r = 3 \<and> fst (main (fx_argv ''migrate'') fx_node fx_pg (\<lambda>e. None) fx_store) = 0"
    by simp
  moreover from applied_count_exact
    [of fx_node fx_pg fx_store_done _ _ _ _
        "[js ''0001_init'', js ''0002_add_index'', js ''0003_empty'', js ''0010_later'']"] h
  have "migrate fx_node fx_pg fx_store_done =
     (Resolved, \<lparr>db = fx_store_done, appliedCount = 0\<rparr>, prologue fx_node @ epilogue 0)"
    by simp
  ultimately show ?thesis using a n run by simp
qed

text \<open>
  C8. For every command-line invocation, the dispatcher reads exactly one command
  token: \<^verbatim>\<open>migrate\<close> and \<^verbatim>\<open>serve\<close> run their respective phases; any other token,
  or no token, prints usage text and exits with status 0 when the token is an explicit
  help request (\<^verbatim>\<open>--help\<close> or \<^verbatim>\<open>-h\<close>) and status 1 otherwise.

  The program depends on the command line through \<^verbatim>\<open>process.argv[2]\<close> only; with
  \<^verbatim>\<open>migrate\<close> it is the migration run and its exit status, with \<^verbatim>\<open>serve\<close> it is
  the hand-over to the server module, and in every other case the store is untouched,
  the only output is the usage text and the status is 0 for the two help tokens and 1
  otherwise.
\<close>

theorem dispatcher_one_token:
  "(command argv' = command argv \<longrightarrow> main argv' nd pg im s = main argv nd pg im s) \<and>
   (command argv = Some (js ''migrate'') \<longrightarrow>
      dispatch argv = RunMigrate \<and>
      fst (main argv nd pg im s) = exit_status (fst (migrate nd pg s)) \<and>
      fst (snd (main argv nd pg im s)) = db (fst (snd (migrate nd pg s)))) \<and>
   (command argv = Some (js ''serve'') \<longrightarrow>
      dispatch argv = RunServe \<and>
      main argv nd pg im s =
        (case im (fst (serve nd)) of
           Some c \<Rightarrow> (1, s, snd (serve nd) @ [Err (Uncaught c)])
         | None \<Rightarrow> (0, s, snd (serve nd)))) \<and>
   (command argv \<noteq> Some (js ''migrate'') \<and> command argv \<noteq> Some (js ''serve'') \<longrightarrow>
      main argv nd pg im s =
        (if command argv = Some (js ''--help'') \<or> command argv = Some (js ''-h'') then 0 else 1,
         s, [Log Usage]))"
proof (intro conjI impI)
  assume "command argv' = command argv"
  then have "dispatch argv' = dispatch argv"
    by (simp add: dispatch_def)
  then show "main argv' nd pg im s = main argv nd pg im s"
    by (simp add: main_def)
next
  assume c: "command argv = Some (js ''migrate'')"
  then show d: "dispatch argv = RunMigrate"
    by (simp add: dispatch_def)
  obtain out r t where m: "migrate nd pg s = (out, r, t)"
    by (metis prod_cases3)
  from main_migrate [OF d m] m
  show "fst (main argv nd pg im s) = exit_status (fst (migrate nd pg s))"
    by simp
  from d m show "fst (snd (main argv nd pg im s)) = db (fst (snd (migrate nd pg s)))"
    by (cases out) (simp_all add: main_def)
next
  assume c: "command argv = Some (js ''serve'')"
  have "js ''serve'' \<noteq> js ''migrate''"
    by (simp add: js_def)
  with c show d: "dispatch argv = RunServe"
    by (simp add: dispatch_def)
  then show "main argv nd pg im s =
        (case im (fst (serve nd)) of
           Some c \<Rightarrow> (1, s, snd (serve nd) @ [Err (Uncaught c)])
         | None \<Rightarrow> (0, s, snd (serve nd)))"
    by (simp add: main_def split: prod.splits option.splits)
next
  assume "command argv \<noteq> Some (js ''migrate'') \<and> command argv \<noteq> Some (js ''serve'')"
  then show "main argv nd pg im s =
        (if command argv = Some (js ''--help'') \<or> command argv = Some (js ''-h'') then 0 else 1,
         s, [Log Usage])"
    by (simp add: main_def dispatch_def)
qed

theorem dispatcher_one_token_witness:
  "main (fx_argv ''frobnicate'') fx_node fx_pg (\<lambda>e. None) fx_store = (1, fx_store, [Log Usage]) \<and>
   main (fx_argv ''--help'') fx_node fx_pg (\<lambda>e. None) fx_store = (0, fx_store, [Log Usage]) \<and>
   main (fx_argv ''-h'') fx_node fx_pg (\<lambda>e. None) fx_store = (0, fx_store, [Log Usage]) \<and>
   main [js ''node'', js ''standalone.ts''] fx_node fx_pg (\<lambda>e. None) fx_store
     = (1, fx_store, [Log Usage]) \<and>
   main (fx_argv ''serve'') fx_node fx_pg (\<lambda>e. None) fx_store = (0, fx_store, [ImportMain]) \<and>
   fst (main (fx_argv ''migrate'') fx_node fx_pg_fail (\<lambda>e. None) fx_store) = 1 \<and>
   main (fx_argv ''serve'' @ [js ''migrate'']) fx_node fx_pg (\<lambda>e. None) fx_store
     = main (fx_argv ''serve'') fx_node fx_pg (\<lambda>e. None) fx_store"
proof -
  have c: "command (fx_argv ''frobnicate'') = Some (js ''frobnicate'')"
    "command (fx_argv ''--help'') = Some (js ''--help'')"
    "command (fx_argv ''-h'') = Some (js ''-h'')"
    "command [js ''node'', js ''standalone.ts''] = None"
    "command (fx_argv ''serve'') = Some (js ''serve'')"
    "command (fx_argv ''migrate'') = Some (js ''migrate'')"
    "command (fx_argv ''serve'' @ [js ''migrate'']) = command (fx_argv ''serve'')"
    by (simp_all add: command_def fx_argv_def)
  have n: "js ''frobnicate'' \<noteq> js ''migrate''" "js ''frobnicate'' \<noteq> js ''serve''"
    "js ''frobnicate'' \<noteq> js ''--help''" "js ''frobnicate'' \<noteq> js ''-h''"
    "js ''--help'' \<noteq> js ''migrate''" "js ''--help'' \<noteq> js ''serve''"
    "js ''-h'' \<noteq> js ''migrate''" "js ''-h'' \<noteq> js ''serve''"
    by (simp_all add: js_def)
  have e: "exit_status (fst (migrate fx_node fx_pg_fail fx_store)) = 1"
    by code_simp
  have v: "snd (serve fx_node) = [ImportMain]"
    by (simp add: serve_def)
  note w = dispatcher_one_token [where nd = fx_node and im = "\<lambda>e. None" and s = fx_store]
  from w [of "fx_argv ''frobnicate''" "fx_argv ''frobnicate''" fx_pg] c n
  have "main (fx_argv ''frobnicate'') fx_node fx_pg (\<lambda>e. None) fx_store = (1, fx_store, [Log Usage])"
    by simp
  moreover from w [of "fx_argv ''--help''" "fx_argv ''--help''" fx_pg] c n
  have "main (fx_argv ''--help'') fx_node fx_pg (\<lambda>e. None) fx_store = (0, fx_store, [Log Usage])"
    by simp
  moreover from w [of "fx_argv ''-h''" "fx_argv ''-h''" fx_pg] c n
  have "main (fx_argv ''-h'') fx_node fx_pg (\<lambda>e. None) fx_store = (0, fx_store, [Log Usage])"
    by simp
  moreover from w [of "[js ''node'', js ''standalone.ts'']" "[js ''node'', js ''standalone.ts'']" fx_pg] c
  have "main [js ''node'', js ''standalone.ts''] fx_node fx_pg (\<lambda>e. None) fx_store
     = (1, fx_store, [Log Usage])"
    by simp
  moreover from w [of "fx_argv ''serve''" "fx_argv ''serve''" fx_pg] c v
  have "main (fx_argv ''serve'') fx_node fx_pg (\<lambda>e. None) fx_store = (0, fx_store, [ImportMain])"
    by simp
  moreover from w [of "fx_argv ''migrate''" "fx_argv ''migrate''" fx_pg_fail] c e
  have "fst (main (fx_argv ''migrate'') fx_node fx_pg_fail (\<lambda>e. None) fx_store) = 1"
    by simp
  moreover from w [of "fx_argv ''serve'' @ [js ''migrate'']" "fx_argv ''serve''" fx_pg] c
  have "main (fx_argv ''serve'' @ [js ''migrate'']) fx_node fx_pg (\<lambda>e. None) fx_store
     = main (fx_argv ''serve'') fx_node fx_pg (\<lambda>e. None) fx_store"
    by simp
  ultimately show ?thesis by blast
qed



lemma or_else_idem: "or_else v (or_else v d) = or_else v d"
  by (simp add: or_else_def split: option.splits)

lemma serve_assigns:
  "\<not> truthy (env nd (js ''DATABASE_URL'')) \<Longrightarrow>
     fst (serve nd) = (env nd)(js ''PGLITE_DIR'' \<mapsto> pgliteDir nd)"
  by (simp add: serve_def pgliteDir_def or_else_idem)

text \<open>
  C10. The serve phase mutates only the \<^verbatim>\<open>PGLITE_DIR\<close> environment value, and only
  when \<^verbatim>\<open>DATABASE_URL\<close> is unset: if \<^verbatim>\<open>DATABASE_URL\<close> is set, serve leaves
  \<^verbatim>\<open>PGLITE_DIR\<close> (and all other configuration) unchanged before handing off to the
  external server module; serve never opens the store itself.

  As stated the claim fails: the test of the source is \<^verbatim>\<open>!process.env.DATABASE_URL\<close>,
  and a variable that is set to the empty string is falsy. With \<^verbatim>\<open>DATABASE_URL\<close>
  set to the empty string and \<^verbatim>\<open>PGLITE_DIR\<close> unset, serve assigns \<^verbatim>\<open>PGLITE_DIR\<close>.
\<close>

theorem serve_database_url_set_counterexample:
  "env fx_node_empty_url (js ''DATABASE_URL'') = Some [] \<and>
   env fx_node_empty_url (js ''PGLITE_DIR'') = None \<and>
   fst (serve fx_node_empty_url) (js ''PGLITE_DIR'') = Some (fx_join [js ''./data'', js ''pglite''])"
proof -
  have "js ''PGLITE_DIR'' \<noteq> js ''DATABASE_URL''" "js ''DATA_DIR'' \<noteq> js ''DATABASE_URL''"
    by (simp_all add: js_def)
  then show ?thesis
    by (simp add: fx_node_empty_url_def fx_node_def serve_def truthy_def or_else_def
          pgliteDir_def dataDir_def)
qed

text \<open>
  C10, amended. The serve phase changes at most the \<^verbatim>\<open>PGLITE_DIR\<close> environment
  value, and only when \<^verbatim>\<open>DATABASE_URL\<close> is unset or empty: if \<^verbatim>\<open>DATABASE_URL\<close> is
  set to a non-empty value, serve leaves the whole environment unchanged before
  handing off to the external server module; otherwise \<^verbatim>\<open>PGLITE_DIR\<close> becomes the
  configured store location, which is its old value when that was non-empty. Serve
  never opens the store itself: its only event is the import of the server module,
  and the program leaves the store as it was.
\<close>

theorem serve_sets_only_pglite_dir:
  "(\<forall>k. k \<noteq> js ''PGLITE_DIR'' \<longrightarrow> fst (serve nd) k = env nd k) \<and>
   (truthy (env nd (js ''DATABASE_URL'')) \<longrightarrow> fst (serve nd) = env nd) \<and>
   (\<not> truthy (env nd (js ''DATABASE_URL'')) \<longrightarrow>
      fst (serve nd) = (env nd)(js ''PGLITE_DIR'' \<mapsto> pgliteDir nd)) \<and>
   (truthy (env nd (js ''PGLITE_DIR'')) \<longrightarrow> fst (serve nd) = env nd) \<and>
   snd (serve nd) = [ImportMain] \<and>
   (dispatch argv = RunServe \<longrightarrow>
      fst (snd (main argv nd pg im s)) = s \<and>
      (\<forall>p. Opened p \<notin> set (snd (snd (main argv nd pg im s)))))"
proof (intro conjI impI allI)
  fix k :: jsstring
  assume "k \<noteq> js ''PGLITE_DIR''"
  then show "fst (serve nd) k = env nd k"
    by (simp add: serve_def)
next
  assume "truthy (env nd (js ''DATABASE_URL''))"
  then show "fst (serve nd) = env nd"
    by (simp add: serve_def)
next
  assume "\<not> truthy (env nd (js ''DATABASE_URL''))"
  then show "fst (serve nd) = (env nd)(js ''PGLITE_DIR'' \<mapsto> pgliteDir nd)"
    by (rule serve_assigns)
next
  assume p: "truthy (env nd (js ''PGLITE_DIR''))"
  then obtain v where v: "env nd (js ''PGLITE_DIR'') = Some v" "v \<noteq> []"
    by (auto simp: truthy_def split: option.splits)
  then have "(env nd)(js ''PGLITE_DIR'' \<mapsto> or_else (env nd (js ''PGLITE_DIR'')) (pgliteDir nd))
      = env nd"
    by (auto simp: or_else_def)
  then show "fst (serve nd) = env nd"
    by (simp add: serve_def)
next
  show "snd (serve nd) = [ImportMain]"
    by (simp add: serve_def)
next
  assume d: "dispatch argv = RunServe"
  then show "fst (snd (main argv nd pg im s)) = s"
    by (simp add: main_def split: prod.splits option.splits)
  fix p
  from d show "Opened p \<notin> set (snd (snd (main argv nd pg im s)))"
    by (auto simp: main_def serve_def split: prod.splits option.splits)
qed

theorem serve_sets_only_pglite_dir_witness:
  "truthy (env fx_node_url (js ''DATABASE_URL'')) \<and>
   fst (serve fx_node_url) = env fx_node_url \<and>
   \<not> truthy (env fx_node (js ''DATABASE_URL'')) \<and>
   fst (serve fx_node) = (env fx_node)(js ''PGLITE_DIR'' \<mapsto> pgliteDir fx_node) \<and>
   fst (serve fx_node) (js ''DATA_DIR'') = env fx_node (js ''DATA_DIR'') \<and>
   fst (snd (main (fx_argv ''serve'') fx_node fx_pg (\<lambda>e. None) fx_store)) = fx_store"
proof -
  have a: "truthy (env fx_node_url (js ''DATABASE_URL''))"
    by (simp add: fx_node_url_def truthy_def js_def)
  have b: "\<not> truthy (env fx_node (js ''DATABASE_URL''))"
    by (simp add: fx_node_def truthy_def)
  have c: "js ''DATA_DIR'' \<noteq> js ''PGLITE_DIR''"
    by (simp add: js_def)
  have d: "dispatch (fx_argv ''serve'') = RunServe"
    by code_simp
  from serve_sets_only_pglite_dir [of fx_node_url "[]" fx_pg "\<lambda>e. None" fx_store] a
  have "fst (serve fx_node_url) = env fx_node_url"
    by simp
  moreover
  from serve_sets_only_pglite_dir [of fx_node "fx_argv ''serve''" fx_pg "\<lambda>e. None" fx_store] b c d
  have "fst (serve fx_node) = (env fx_node)(js ''PGLITE_DIR'' \<mapsto> pgliteDir fx_node) \<and>
    fst (serve fx_node) (js ''DATA_DIR'') = env fx_node (js ''DATA_DIR'') \<and>
    fst (snd (main (fx_argv ''serve'') fx_node fx_pg (\<lambda>e. None) fx_store)) = fx_store"
    by blast
  ultimately show ?thesis using a b by blast
qed

text \<open>
  C2. For every set of migration subdirectories, regardless of the order in which the
  filesystem lists them, the units not yet applied are executed in strictly ascending
  lexical (byte-wise) order of their directory-name ids; the applied-names set is
  computed once at the start of the run, not re-queried per unit.

  As stated the claim fails: \<^verbatim>\<open>.sort()\<close> without a comparison function compares
  UTF-16 code units, and that is not the order of the bytes of the names when a name
  has a character outside the Basic Multilingual Plane. A root with the two units
  U+FF5E and U+1F600 executes U+1F600 (code units D83D DE00) first, whose bytes
  F0 9F 98 80 come after the bytes EF BD 9E of U+FF5E.
\<close>

theorem byte_order_counterexample:
  "execs (snd (snd (migrate fx_node_astral fx_pg fx_store))) = [ [0xD83D, 0xDE00], [0xFF5E] ] \<and>
   utf8_bytes [0xFF5E] < utf8_bytes [0xD83D, 0xDE00]"
proof -
  have "execs (snd (snd (migrate fx_node_astral fx_pg fx_store))) = [ [0xD83D, 0xDE00], [0xFF5E] ]"
    by code_simp
  moreover have "utf8_bytes [0xFF5E] = [0xEF, 0xBD, 0x9E]"
    and "utf8_bytes [0xD83D, 0xDE00] = [0xF0, 0x9F, 0x98, 0x80]"
    by (simp_all add: utf8_bytes_def is_high_def is_low_def utf8_of_def)
  ultimately show ?thesis by simp
qed

text \<open>
  C2, amended. For every set of migration subdirectories, regardless of the order in
  which the filesystem lists them, the units not yet applied are executed in strictly
  ascending order of their directory-name ids compared as sequences of UTF-16 code
  units, which is the byte-wise order when the names are ASCII; the applied-names set
  is computed once at the start of the run, not re-queried per unit.

  A set of subdirectories is a listing in which each name occurs once.

  The executed units are a prefix of the pending units of the sorted directory list
  (all of them when the run resolves), where pending refers to the applied set of the
  store at the start; the run is the same for every other listing of the same names.
\<close>

theorem execution_order_code_units:
  assumes run: "migrate nd pg s = (out, r, t)"
    and ls: "readdirSync nd (root_of nd) = Inr names" and dn: "distinct names"
  shows "sorted_wrt (<) (execs t) \<and>
    ((\<forall>d \<in> set names. ascii d) \<longrightarrow> sorted_wrt (<) (map utf8_bytes (execs t))) \<and>
    (\<forall>dirs. sorted_dirs nd (root_of nd) = Inr dirs \<longrightarrow>
       dirs = sort (filter (is_dir nd (root_of nd)) names) \<and>
       (\<exists>rest. filter (pending nd (root_of nd) (applied_names (create_tracking_table s))) dirs
                  = execs t @ rest) \<and>
       (out = Resolved \<longrightarrow>
          execs t = filter (pending nd (root_of nd) (applied_names (create_tracking_table s))) dirs) \<and>
       (\<forall>names'. set names' = set names \<and> distinct names' \<longrightarrow>
          migrate (nd\<lparr>readdirSync := (readdirSync nd)(root_of nd := Inr names')\<rparr>) pg s
            = migrate nd pg s))"
proof -
  let ?P = "pending nd (root_of nd) (applied_names (create_tracking_table s))"
  have pre: "(\<exists>rest. filter ?P dirs = execs t @ rest) \<and> (out = Resolved \<longrightarrow> execs t = filter ?P dirs)"
    if sd: "sorted_dirs nd (root_of nd) = Inr dirs" for dirs
    using run
  proof (cases rule: migrate_cases)
    case stopped
    then show ?thesis by simp
  next
    case (looped dirs' lo t')
    with sd have [simp]: "dirs' = dirs"
      by simp
    from looped(5) have p: "\<exists>rest. filter ?P dirs = execs t' @ rest"
      using apply_dirs_prefix by fastforce
    show ?thesis
    proof (cases lo)
      case None
      with looped have "out = Resolved" "execs t = execs t'"
        by (simp_all add: execs_append)
      moreover from None looped(5) have "execs t' = filter ?P dirs"
        using apply_dirs_completed by fastforce
      ultimately show ?thesis by simp
    next
      case (Some oc)
      with looped have "out \<noteq> Resolved" "execs t = execs t'"
        by (auto simp: execs_append)
      with p show ?thesis by simp
    qed
  qed
  have srt: "sorted_wrt (<) (execs t)" and sub: "set (execs t) \<subseteq> set names"
  proof -
    show "sorted_wrt (<) (execs t)"
    proof (cases "sorted_dirs nd (root_of nd)")
      case (Inl e)
      with run have "execs t = []"
        by (cases rule: migrate_cases) simp_all
      then show ?thesis by simp
    next
      case (Inr dirs)
      from pre [OF Inr] obtain rest where "filter ?P dirs = execs t @ rest"
        by blast
      with sorted_dirs_Inr(1) [OF Inr ls] dn show ?thesis
        using strict_sorted_prefix by blast
    qed
    show "set (execs t) \<subseteq> set names"
    proof (cases "sorted_dirs nd (root_of nd)")
      case (Inl e)
      with run have "execs t = []"
        by (cases rule: migrate_cases) simp_all
      then show ?thesis by simp
    next
      case (Inr dirs)
      from pre [OF Inr] obtain rest where "filter ?P dirs = execs t @ rest"
        by blast
      then have "set (execs t) \<subseteq> set dirs"
        by (metis filter_is_subset set_append Un_upper1 subset_trans)
      with sorted_dirs_Inr(1) [OF Inr ls] show ?thesis
        by auto
    qed
  qed
  have bytes: "sorted_wrt (<) (map utf8_bytes (execs t))" if a: "\<forall>d \<in> set names. ascii d"
  proof -
    from a sub have "\<forall>d \<in> set (execs t). ascii d"
      by blast
    then have "sorted_wrt (\<lambda>x y. utf8_bytes x < utf8_bytes y) (execs t)"
      using srt by (intro sorted_wrt_mono_rel [OF _ srt]) (simp add: utf8_less_ascii)
    then show ?thesis
      by (simp add: sorted_wrt_map)
  qed
  from srt bytes pre sorted_dirs_Inr(1) [OF _ ls] migrate_listing_order [OF ls _ _ _ dn]
  show ?thesis
    by blast
qed

theorem execution_order_code_units_witness:
  "execs (snd (snd (migrate fx_node fx_pg fx_store)))
     = [js ''0001_init'', js ''0002_add_index'', js ''0010_later''] \<and>
   sorted_wrt (<) (execs (snd (snd (migrate fx_node fx_pg fx_store)))) \<and>
   sorted_wrt (<) (map utf8_bytes (execs (snd (snd (migrate fx_node fx_pg fx_store))))) \<and>
   migrate fx_node_relisted fx_pg fx_store = migrate fx_node fx_pg fx_store \<and>
   execs (snd (snd (migrate fx_node fx_pg_sneaky fx_store)))
     = [js ''0001_init'', js ''0002_add_index'']"
proof -
  let ?names = "[js ''0010_later'', js ''README.md'', js ''0001_init'', js ''0003_empty'',
                 js ''0002_add_index'']"
  let ?names' = "[js ''0001_init'', js ''0002_add_index'', js ''0003_empty'', js ''0010_later'',
                  js ''README.md'']"
  let ?dirs = "[js ''0001_init'', js ''0002_add_index'', js ''0003_empty'', js ''0010_later'']"
  obtain out r t where run: "migrate fx_node fx_pg fx_store = (out, r, t)"
    by (metis prod_cases3)
  obtain out' r' t' where run': "migrate fx_node fx_pg_sneaky fx_store = (out', r', t')"
    by (metis prod_cases3)
  have ls: "readdirSync fx_node (root_of fx_node) = Inr ?names"
    and dn: "distinct ?names"
    and asc: "\<forall>d \<in> set ?names. ascii d"
    and sd: "sorted_dirs fx_node (root_of fx_node) = Inr ?dirs"
    and perm: "set ?names' = set ?names \<and> distinct ?names'"
    by code_simp+
  have res: "fst (migrate fx_node fx_pg fx_store) = Resolved"
    by code_simp
  have pend: "filter (pending fx_node (root_of fx_node)
                  (applied_names (create_tracking_table fx_store))) ?dirs
       = [js ''0001_init'', js ''0002_add_index'', js ''0010_later'']"
    by code_simp
  have sneaky: "execs (snd (snd (migrate fx_node fx_pg_sneaky fx_store)))
     = [js ''0001_init'', js ''0002_add_index'']"
    by code_simp
  note w = execution_order_code_units [OF run ls dn]
  from w asc have "sorted_wrt (<) (execs t)" "sorted_wrt (<) (map utf8_bytes (execs t))"
    by blast+
  moreover from res run have "out = Resolved"
    by simp
  with w sd have "execs t = filter (pending fx_node (root_of fx_node)
                  (applied_names (create_tracking_table fx_store))) ?dirs"
    by blast
  with pend have "execs t = [js ''0001_init'', js ''0002_add_index'', js ''0010_later'']"
    by (simp only:)
  moreover from w sd perm
  have "migrate (fx_node\<lparr>readdirSync := (readdirSync fx_node)(root_of fx_node := Inr ?names')\<rparr>)
            fx_pg fx_store = migrate fx_node fx_pg fx_store"
    by blast
  ultimately show ?thesis
    using run sneaky by (simp add: fx_node_relisted_def)
qed







text \<open>
  C4. For every tracking-table state, the applied set used to decide which units to
  skip contains exactly the \<^verbatim>\<open>migration_name\<close> values of rows whose
  \<^verbatim>\<open>finished_at\<close> is set; a row with \<^verbatim>\<open>finished_at\<close> unset (an in-progress or
  abandoned attempt) never counts as applied, so its unit is re-attempted on the next
  run.

  With \<open>rows\<close> the rows of the table at the start of the run (none when the table
  does not exist yet): a name is in the applied set exactly when some row with that name
  has \<^verbatim>\<open>finished_at\<close> set; no executed unit has such a row; and the first unit, in
  order, that has a script and no such row is attempted, and executed when its script
  can be read, whatever unfinished rows it has.
\<close>

theorem applied_set_is_finished_rows:
  assumes run: "migrate nd pg s = (out, r, t)"
    and rows: "rows = (case tracking s of None \<Rightarrow> [] | Some rs \<Rightarrow> rs)"
  shows "(\<forall>d. d \<in> applied_names (create_tracking_table s) \<longleftrightarrow>
            (\<exists>x \<in> set rows. migration_name x = d \<and> finished_at x \<noteq> None)) \<and>
     (\<forall>d \<in> set (execs t). \<forall>x \<in> set rows. migration_name x = d \<longrightarrow> finished_at x = None) \<and>
     (\<forall>dirs d rest.
        mkdirSync nd (pgliteDir nd) = None \<and> createPGlite pg (pgliteDir nd) = None \<and>
        root_of nd \<noteq> [] \<and> sorted_dirs nd (root_of nd) = Inr dirs \<and>
        filter (\<lambda>d. existsSync nd (sqlFile nd (root_of nd) d) \<and>
                 (\<forall>x \<in> set rows. migration_name x = d \<longrightarrow> finished_at x = None)) dirs = d # rest \<longrightarrow>
        Log (Applying d) \<in> set t \<and>
        (\<forall>sql. readFileSync nd (sqlFile nd (root_of nd) d) = Inr sql \<longrightarrow> d \<in> set (execs t)))"
proof -
  let ?A = "applied_names (create_tracking_table s)"
  have A: "d \<in> ?A \<longleftrightarrow> (\<exists>x \<in> set rows. migration_name x = d \<and> finished_at x \<noteq> None)" for d
    unfolding rows by (rule applied_names_rows)
  have P: "pending nd (root_of nd) ?A =
     (\<lambda>d. existsSync nd (sqlFile nd (root_of nd) d) \<and>
           (\<forall>x \<in> set rows. migration_name x = d \<longrightarrow> finished_at x = None))"
    by (auto simp: pending_def A fun_eq_iff)
  have ex: "\<forall>d \<in> set (execs t). d \<notin> ?A"
    using run
  proof (cases rule: migrate_cases)
    case stopped
    then show ?thesis by simp
  next
    case (looped dirs lo t')
    from apply_dirs_prefix [OF looped(5)] obtain rest where
      "filter (pending nd (root_of nd) ?A) dirs = execs t' @ rest"
      by blast
    then have "set (execs t') \<subseteq> set (filter (pending nd (root_of nd) ?A) dirs)"
      by simp
    then have "\<forall>d \<in> set (execs t'). pending nd (root_of nd) ?A d"
      by auto
    moreover from looped have "execs t = execs t'"
      by (cases lo) (auto simp: execs_append)
    ultimately show ?thesis
      by (simp add: pending_def)
  qed
  have first: "Log (Applying d) \<in> set t \<and>
        (\<forall>sql. readFileSync nd (sqlFile nd (root_of nd) d) = Inr sql \<longrightarrow> d \<in> set (execs t))"
    if h: "mkdirSync nd (pgliteDir nd) = None" "createPGlite pg (pgliteDir nd) = None"
      "root_of nd \<noteq> []" "sorted_dirs nd (root_of nd) = Inr dirs"
      "filter (pending nd (root_of nd) ?A) dirs = d # rest" for dirs d rest
    using run
  proof (cases rule: migrate_cases)
    case stopped
    with h show ?thesis by blast
  next
    case (looped dirs' lo t')
    with h have "dirs' = dirs"
      by simp
    with apply_dirs_first [OF looped(5)] h(5)
    have "Log (Applying d) \<in> set t' \<and>
        (\<forall>sql. readFileSync nd (sqlFile nd (root_of nd) d) = Inr sql \<longrightarrow> d \<in> set (execs t'))"
      by simp
    moreover from looped have "set t' \<subseteq> set t" "execs t = execs t'"
      by (cases lo; auto simp: execs_append)+
    ultimately show ?thesis by auto
  qed
  from A ex first show ?thesis
    unfolding P [symmetric] by (auto simp: A)
qed

theorem applied_set_is_finished_rows_witness:
  "js ''0001_init'' \<notin> applied_names (create_tracking_table fx_store_unfinished) \<and>
   js ''0001_init'' \<in> applied_names (create_tracking_table fx_store_one) \<and>
   js ''0001_init'' \<in> set (execs (snd (snd (migrate fx_node fx_pg fx_store_unfinished)))) \<and>
   js ''0001_init'' \<notin> set (execs (snd (snd (migrate fx_node fx_pg fx_store_one))))"
proof -
  let ?u = "\<lparr>row_id = js ''r1'', migration_name = js ''0001_init'',
              finished_at = None, started_at = 3, applied_steps_count = 0, logs = None\<rparr>"
  let ?f = "\<lparr>row_id = js ''r1'', migration_name = js ''0001_init'',
              finished_at = Some 5, started_at = 3, applied_steps_count = 1, logs = None\<rparr>"
  let ?dirs = "[js ''0001_init'', js ''0002_add_index'', js ''0003_empty'', js ''0010_later'']"
  obtain out r t where run: "migrate fx_node fx_pg fx_store_unfinished = (out, r, t)"
    by (metis prod_cases3)
  obtain out' r' t' where run': "migrate fx_node fx_pg fx_store_one = (out', r', t')"
    by (metis prod_cases3)
  have rows: "[?u] = (case tracking fx_store_unfinished of None \<Rightarrow> [] | Some rs \<Rightarrow> rs)"
    "[?f] = (case tracking fx_store_one of None \<Rightarrow> [] | Some rs \<Rightarrow> rs)"
    by (simp_all add: fx_store_unfinished_def fx_store_one_def)
  have pend: "filter (\<lambda>d. existsSync fx_node (sqlFile fx_node (root_of fx_node) d) \<and>
                 (\<forall>x \<in> set [?u]. migration_name x = d \<longrightarrow> finished_at x = None)) ?dirs
      = js ''0001_init'' # [js ''0002_add_index'', js ''0010_later'']"
    and rd: "readFileSync fx_node (sqlFile fx_node (root_of fx_node) (js ''0001_init'')) = Inr (js ''A'')"
    by code_simp+
  note w = applied_set_is_finished_rows [OF run rows(1)]
  note w' = applied_set_is_finished_rows [OF run' rows(2)]
  have h: "mkdirSync fx_node (pgliteDir fx_node) = None \<and>
      createPGlite fx_pg (pgliteDir fx_node) = None \<and> root_of fx_node \<noteq> [] \<and>
      sorted_dirs fx_node (root_of fx_node) = Inr ?dirs \<and>
      filter (\<lambda>d. existsSync fx_node (sqlFile fx_node (root_of fx_node) d) \<and>
                 (\<forall>x \<in> set [?u]. migration_name x = d \<longrightarrow> finished_at x = None)) ?dirs
        = js ''0001_init'' # [js ''0002_add_index'', js ''0010_later'']"
    by (intro conjI fx_listing(5,6,7,3) pend)
  from w [THEN conjunct1, rule_format, of "js ''0001_init''"]
  have "js ''0001_init'' \<notin> applied_names (create_tracking_table fx_store_unfinished)"
    by simp
  moreover from w [THEN conjunct2, THEN conjunct2, rule_format, OF h] rd
  have "js ''0001_init'' \<in> set (execs t)"
    by simp
  moreover from w' [THEN conjunct1, rule_format, of "js ''0001_init''"]
  have "js ''0001_init'' \<in> applied_names (create_tracking_table fx_store_one)"
    by simp
  moreover from w' [THEN conjunct2, THEN conjunct1]
  have "js ''0001_init'' \<notin> set (execs t')"
    by auto
  ultimately show ?thesis
    using run run' by simp
qed

text \<open>
  C5. For every migrations root, a subdirectory that lacks the conventional script file
  (\<^verbatim>\<open>migration.sql\<close>) is silently skipped: it produces no error, its script is never
  executed, no tracking record is written for it, and it does not contribute to the
  applied count; non-directory entries in the root are likewise ignored.

  As stated the claim fails for a non-directory entry that \<^verbatim>\<open>statSync\<close> cannot
  inspect: \<^verbatim>\<open>statSync\<close> follows symbolic links and throws on a link whose target is
  missing, and nothing catches the exception inside \<^verbatim>\<open>migrate\<close>. The sample root
  with such an entry ends with status 1 and executes nothing; without the entry the
  run resolves.
\<close>

theorem dangling_entry_counterexample:
  "statSync_isDirectory fx_node_dangling
     (path_join fx_node_dangling [root_of fx_node_dangling, js ''broken'']) = Inl (js ''ENOENT'') \<and>
   fst (migrate fx_node_dangling fx_pg fx_store) = Rejected (Thrown (js ''ENOENT'')) \<and>
   exit_status (fst (migrate fx_node_dangling fx_pg fx_store)) = 1 \<and>
   execs (snd (snd (migrate fx_node_dangling fx_pg fx_store))) = [] \<and>
   fst (migrate fx_node fx_pg fx_store) = Resolved"
  by code_simp

text \<open>
  C5, amended. For every migrations root, a subdirectory that lacks the conventional
  script file (\<^verbatim>\<open>migration.sql\<close>) is silently skipped: it produces no error, its
  script is never executed, no tracking record is written for it, and it does not
  contribute to the applied count; non-directory entries in the root that
  \<^verbatim>\<open>statSync\<close> can inspect are likewise ignored.

  For an entry \<open>e\<close> of the root that \<^verbatim>\<open>statSync\<close> reports as a non-directory, or as
  a directory whose script file does not exist: the run is the same as the run over the
  listing without \<open>e\<close>, no event of the run is about \<open>e\<close>, and the count is the number
  of inserted records, none of which is for \<open>e\<close>.
\<close>

theorem missing_script_is_skipped:
  assumes ls: "readdirSync nd (root_of nd) = Inr names"
    and skip: "statSync_isDirectory nd (path_join nd [root_of nd, e]) = Inr False \<or>
               (statSync_isDirectory nd (path_join nd [root_of nd, e]) = Inr True \<and>
                \<not> existsSync nd (sqlFile nd (root_of nd) e))"
  shows "migrate (nd\<lparr>readdirSync := (readdirSync nd)(root_of nd := Inr (removeAll e names))\<rparr>) pg s
           = migrate nd pg s \<and>
         (\<forall>out r t. migrate nd pg s = (out, r, t) \<longrightarrow>
            (\<forall>ev \<in> set t. about ev \<noteq> Some e) \<and> e \<notin> set (execs t) \<and> e \<notin> set (inserted t) \<and>
            appliedCount r = length (inserted t))"
proof
  let ?nd' = "nd\<lparr>readdirSync := (readdirSync nd)(root_of nd := Inr (removeAll e names))\<rparr>"
  let ?A = "applied_names (create_tracking_table s)"
  let ?P = "pending nd (root_of nd) ?A"
  from skip obtain b where b: "statSync_isDirectory nd (path_join nd [root_of nd, e]) = Inr b"
    by blast
  have fd: "filter_directories ?nd' (root_of nd) (removeAll e names)
      = map_sum id (removeAll e) (filter_directories nd (root_of nd) names)"
    using filter_directories_removeAll [OF b, of names]
      filter_directories_cong [of ?nd' nd "root_of nd" "removeAll e names"]
    by simp
  have dirs: "map_sum id (filter ?P) (sorted_dirs ?nd' (root_of nd))
      = map_sum id (filter ?P) (sorted_dirs nd (root_of nd))"
  proof (cases "filter_directories nd (root_of nd) names")
    case (Inl x)
    with fd ls show ?thesis
      by (simp add: sorted_dirs_def)
  next
    case (Inr ds)
    from filter_directories_Inr [OF Inr] have "ds = filter (is_dir nd (root_of nd)) names"
      by simp
    with skip have "e \<notin> set ds \<or> \<not> ?P e"
      by (auto simp: is_dir_def pending_def)
    then have "filter ?P (sort (removeAll e ds)) = filter ?P (sort ds)"
      by (rule pending_sort_removeAll)
    with Inr fd ls show ?thesis
      by (simp add: sorted_dirs_def)
  qed
  show "migrate ?nd' pg s = migrate nd pg s"
    by (rule migrate_cong) (use dirs in simp_all)
  show "\<forall>out r t. migrate nd pg s = (out, r, t) \<longrightarrow>
            (\<forall>ev \<in> set t. about ev \<noteq> Some e) \<and> e \<notin> set (execs t) \<and> e \<notin> set (inserted t) \<and>
            appliedCount r = length (inserted t)"
  proof (intro allI impI)
    fix out r t
    assume run: "migrate nd pg s = (out, r, t)"
    then have "(\<forall>ev \<in> set t. about ev \<noteq> Some e) \<and> appliedCount r = length (inserted t)"
    proof (cases rule: migrate_cases)
      case stopped
      then show ?thesis by simp
    next
      case (looped dirs lo t')
      from sorted_dirs_Inr(1) [OF looped(1) ls] skip have np: "e \<notin> set dirs \<or> \<not> ?P e"
        by (auto simp: is_dir_def pending_def)
      have "about ev \<noteq> Some e" if "ev \<in> set t'" for ev
        using apply_dirs_about [OF looped(5) that] np by auto
      moreover from looped have "set t \<subseteq> set (prologue nd) \<union> set t' \<union> set (epilogue (appliedCount r))"
        "inserted t = inserted t'"
        by (cases lo; auto simp: inserted_append)+
      moreover from apply_dirs_count [OF looped(5)] have "appliedCount r = length (inserted t')"
        by simp
      ultimately show ?thesis
        by (auto dest: about_fixed)
    qed
    then show "(\<forall>ev \<in> set t. about ev \<noteq> Some e) \<and> e \<notin> set (execs t) \<and> e \<notin> set (inserted t) \<and>
            appliedCount r = length (inserted t)"
      using execs_about [of e t] inserted_about [of e t] by blast
  qed
qed

theorem missing_script_is_skipped_witness:
  "migrate (fx_node\<lparr>readdirSync := (readdirSync fx_node)(root_of fx_node :=
        Inr [js ''0010_later'', js ''README.md'', js ''0001_init'', js ''0002_add_index''])\<rparr>)
      fx_pg fx_store = migrate fx_node fx_pg fx_store \<and>
   migrate (fx_node\<lparr>readdirSync := (readdirSync fx_node)(root_of fx_node :=
        Inr [js ''0010_later'', js ''0001_init'', js ''0003_empty'', js ''0002_add_index''])\<rparr>)
      fx_pg fx_store = migrate fx_node fx_pg fx_store \<and>
   fst (migrate fx_node fx_pg fx_store) = Resolved \<and>
   Some (js ''0003_empty'') \<notin> about ` set (snd (snd (migrate fx_node fx_pg fx_store))) \<and>
   Some (js ''README.md'') \<notin> about ` set (snd (snd (migrate fx_node fx_pg fx_store))) \<and>
   appliedCount (fst (snd (migrate fx_node fx_pg fx_store))) = 3"
proof -
  let ?names = "[js ''0010_later'', js ''README.md'', js ''0001_init'', js ''0003_empty'',
                 js ''0002_add_index'']"
  obtain out r t where run: "migrate fx_node fx_pg fx_store = (out, r, t)"
    by (metis prod_cases3)
  have a: "statSync_isDirectory fx_node (path_join fx_node [root_of fx_node, js ''0003_empty''])
             = Inr True \<and>
           \<not> existsSync fx_node (sqlFile fx_node (root_of fx_node) (js ''0003_empty''))"
    and b: "statSync_isDirectory fx_node (path_join fx_node [root_of fx_node, js ''README.md''])
             = Inr False"
    and ra: "removeAll (js ''0003_empty'') ?names
             = [js ''0010_later'', js ''README.md'', js ''0001_init'', js ''0002_add_index'']"
    and rb: "removeAll (js ''README.md'') ?names
             = [js ''0010_later'', js ''0001_init'', js ''0003_empty'', js ''0002_add_index'']"
    and res: "fst (migrate fx_node fx_pg fx_store) = Resolved"
    and n: "length (inserted (snd (snd (migrate fx_node fx_pg fx_store)))) = 3"
    by code_simp+
  note wa = missing_script_is_skipped
    [of fx_node ?names "js ''0003_empty''" fx_pg fx_store, OF fx_listing(1) disjI2, OF a]
  note wb = missing_script_is_skipped
    [of fx_node ?names "js ''README.md''" fx_pg fx_store, OF fx_listing(1) disjI1, OF b]
  from wa [THEN conjunct1] ra
  have "migrate (fx_node\<lparr>readdirSync := (readdirSync fx_node)(root_of fx_node :=
        Inr [js ''0010_later'', js ''README.md'', js ''0001_init'', js ''0002_add_index''])\<rparr>)
      fx_pg fx_store = migrate fx_node fx_pg fx_store"
    by (simp only:)
  moreover from wb [THEN conjunct1] rb
  have "migrate (fx_node\<lparr>readdirSync := (readdirSync fx_node)(root_of fx_node :=
        Inr [js ''0010_later'', js ''0001_init'', js ''0003_empty'', js ''0002_add_index''])\<rparr>)
      fx_pg fx_store = migrate fx_node fx_pg fx_store"
    by (simp only:)
  moreover from wa [THEN conjunct2, rule_format, OF run] wb [THEN conjunct2, rule_format, OF run] n run
  have "(\<forall>ev \<in> set t. about ev \<noteq> Some (js ''0003_empty'') \<and> about ev \<noteq> Some (js ''README.md''))
      \<and> appliedCount r = 3"
    by simp
  then have "Some (js ''0003_empty'') \<notin> about ` set t \<and> Some (js ''README.md'') \<notin> about ` set t
      \<and> appliedCount r = 3"
    by force
  ultimately show ?thesis
    using run res by simp
qed



end
